theory Spec2Isabelle
  imports Complex_Main "HOL-Library.Word"
begin

unbundle bit_operations_syntax

section \<open>Library functions the program calls\<close>

text \<open>
  Go strings are byte sequences; they are modelled as \<open>string\<close> (a list of bytes).
  Where the program ranges over the runes of a string, the model ranges over its bytes:
  the two agree on valid UTF-8 but for \<open>unicode.IsSpace\<close>, which is modelled on the
  ASCII white space only (a white-space rune of several bytes is not recognised).
\<close>

subsection \<open>strings\<close>

fun Join :: "string list \<Rightarrow> string \<Rightarrow> string" where
  "Join [] sep = []"
| "Join [a] sep = a"
| "Join (a # b # bs) sep = a @ sep @ Join (b # bs) sep"

text \<open>\<open>strings.Replace(s, old, new, -1)\<close> and \<open>strings.ReplaceAll\<close>, for an
  \<open>old\<close> of one byte (the program only replaces \<open>"\<close> and \<open>\\<close>).\<close>

definition ReplaceAll :: "string \<Rightarrow> char \<Rightarrow> string \<Rightarrow> string" where
  "ReplaceAll s old new = concat (map (\<lambda>c. if c = old then new else [c]) s)"

definition IsSpace :: "char \<Rightarrow> bool" where
  "IsSpace c = (c = CHR '' '' \<or> c = CHR 0x09 \<or> c = CHR 0x0A \<or> c = CHR 0x0B
                \<or> c = CHR 0x0C \<or> c = CHR 0x0D)"

definition TrimSpace :: "string \<Rightarrow> string" where
  "TrimSpace s = rev (dropWhile IsSpace (rev (dropWhile IsSpace s)))"

subsection \<open>strconv\<close>

definition digit :: "nat \<Rightarrow> char" where
  "digit d = ''0123456789'' ! d"

definition is_digit :: "char \<Rightarrow> bool" where
  "is_digit c = (48 \<le> (of_char c :: nat) \<and> (of_char c :: nat) \<le> 57)"

function decimal :: "nat \<Rightarrow> string" where
  "decimal n = (if n < 10 then [digit n] else decimal (n div 10) @ [digit (n mod 10)])"
  by pat_completeness auto
termination
  by (relation "measure id") auto

declare decimal.simps [simp del]

definition Itoa :: "int \<Rightarrow> string" where
  "Itoa i = (if i < 0 then CHR ''-'' # decimal (nat (- i)) else decimal (nat i))"

fun digits_value :: "nat \<Rightarrow> string \<Rightarrow> nat option" where
  "digits_value acc [] = Some acc"
| "digits_value acc (c # cs) =
     (if is_digit c then digits_value (acc * 10 + (of_char c - 48)) cs else None)"

text \<open>\<open>strconv.Atoi\<close> reads an optional sign and at least one decimal digit. It
  returns the value and whether there was no error: a syntax error gives 0, a value
  outside the 64-bit range of \<open>int\<close> gives the nearest bound.\<close>

definition signed_digits :: "string \<Rightarrow> int option" where
  "signed_digits s =
     (case s of
        [] \<Rightarrow> None
      | c # cs \<Rightarrow>
          if c = CHR ''-'' then
            (if cs = [] then None else map_option (\<lambda>n. - int n) (digits_value 0 cs))
          else if c = CHR ''+'' then
            (if cs = [] then None else map_option int (digits_value 0 cs))
          else map_option int (digits_value 0 s))"

definition Atoi :: "string \<Rightarrow> int \<times> bool" where
  "Atoi s =
     (case signed_digits s of
        None \<Rightarrow> (0, False)
      | Some i \<Rightarrow>
          if i < - (2 ^ 63) then (- (2 ^ 63), False)
          else if 2 ^ 63 \<le> i then (2 ^ 63 - 1, False)
          else (i, True))"

subsection \<open>time\<close>

text \<open>
  A \<open>time.Time\<close> is modelled as its nanoseconds since the epoch, an unbounded integer,
  and a \<open>time.Duration\<close> as its nanoseconds, a 64-bit integer. \<open>Time.Sub\<close>, which
  \<open>time.Since\<close> calls, saturates: a difference outside the range of a duration gives
  the nearest bound.
\<close>

definition second :: int where
  "second = 1000000000"

definition maxDuration :: int where
  "maxDuration = 2 ^ 63 - 1"

definition minDuration :: int where
  "minDuration = - (2 ^ 63)"

definition Sub :: "int \<Rightarrow> int \<Rightarrow> int" where
  "Sub t u =
     (let d = t - u
      in if maxDuration < d then maxDuration
         else if d < minDuration then minDuration
         else d)"

text \<open>
  A finite \<open>float64\<close> is modelled as the rational number it stands for. An operation
  of IEEE 754 arithmetic gives the exact result rounded to the nearest number with a
  significand of 53 bits, a tie going to the even significand: \<open>round64\<close>, where
  \<open>expo x\<close> is the exponent of the power of two at or below \<open>x\<close> and \<open>ilog2\<close> the
  integer logarithm that finds it. Infinities, NaN, overflow and subnormal numbers
  are not modelled: they are out of the reach of \<open>Seconds\<close>.
\<close>

function ilog2 :: "int \<Rightarrow> int" where
  "ilog2 n = (if n < 2 then 0 else 1 + ilog2 (n div 2))"
  by pat_completeness auto
termination
  by (relation "measure nat") auto

declare ilog2.simps [simp del]

definition expo :: "rat \<Rightarrow> int" where
  "expo x =
     (case quotient_of x of
        (p, q) \<Rightarrow>
          let k = ilog2 p - ilog2 q
          in if 2 powi k \<le> x then k else k - 1)"

definition round_half_even :: "rat \<Rightarrow> int" where
  "round_half_even x =
     (let f = \<lfloor>x\<rfloor>; d = x - of_int f
      in if d < 1 / 2 then f
         else if 1 / 2 < d then f + 1
         else if even f then f else f + 1)"

definition round64 :: "rat \<Rightarrow> rat" where
  "round64 x =
     (if x = 0 then 0
      else let u = 2 powi (expo \<bar>x\<bar> - 52)
           in sgn x * of_int (round_half_even (\<bar>x\<bar> / u)) * u)"

text \<open>The conversion \<open>float64(i)\<close> of an integer.\<close>

definition float64 :: "int \<Rightarrow> rat" where
  "float64 i = round64 (of_int i)"

text \<open>Go's \<open>/\<close> and \<open>%\<close> on integers truncate towards zero (the divisor is positive
  here).\<close>

definition quo :: "int \<Rightarrow> int \<Rightarrow> int" where
  "quo a b = sgn a * (\<bar>a\<bar> div b)"

definition rem :: "int \<Rightarrow> int \<Rightarrow> int" where
  "rem a b = sgn a * (\<bar>a\<bar> mod b)"

text \<open>\<open>Duration.Seconds()\<close>: \<open>sec := d / Second; nsec := d % Second;
  return float64(sec) + float64(nsec)/1e9\<close>.\<close>

definition Seconds :: "int \<Rightarrow> rat" where
  "Seconds d =
     (let sec = quo d second;
          nsec = rem d second
      in round64 (float64 sec + round64 (float64 nsec / 1000000000)))"

subsection \<open>encoding/hex and crypto/md5\<close>

definition hextable :: string where
  "hextable = ''0123456789abcdef''"

fun EncodeToString :: "8 word list \<Rightarrow> string" where
  "EncodeToString [] = []"
| "EncodeToString (v # vs) =
     hextable ! unat (drop_bit 4 v) # hextable ! unat (v AND 0x0f) # EncodeToString vs"

text \<open>
  The digest \<open>md5.New().Write(..).Sum(nil)\<close> is code of the Go standard library, not of
  this repository: every function that needs it takes it as the parameter \<open>md5\<close>, a
  function from the bytes hashed to the bytes of the digest.
\<close>

type_synonym digest = "string \<Rightarrow> 8 word list"

section \<open>Fingerprinting\<close>

definition GenerateCommandHash :: "digest \<Rightarrow> string list \<Rightarrow> string" where
  "GenerateCommandHash md5 command = EncodeToString (md5 (Join command '' ''))"

section \<open>The world outside the process\<close>

text \<open>
  The program works on files, on the process table, on its two output streams and on a
  child process. They are the fields of one record that every operation takes and
  returns.
  \<^item> \<open>files\<close>: the files by path, each with its bytes and its modification time (in
    nanoseconds);
  \<^item> \<open>faults\<close>: the system calls that fail with an error other than "no such file"
    (permission denied, disk full), by operation and path; the pipe to the child has
    the empty path;
  \<^item> \<open>now\<close>: the clock, in nanoseconds;
  \<^item> \<open>kill0\<close>: what the system call \<open>kill(pid, 0)\<close> answers: no error (the process
    exists and may be signalled), \<open>ESRCH\<close> (there is no such process) or \<open>EPERM\<close>
    (the process exists and may not be signalled);
  \<^item> \<open>respond\<close>: what starting a child with a given argument vector gives, the child
    being the n-th one started; \<open>spawned\<close> logs the children started;
  \<^item> \<open>pending\<close>: what the other processes do to the files and to the process table
    during each second this process sleeps.
  A child acts on the world only through its two output streams, its exit status and
  the time it takes. The copy of its standard output runs beside \<open>cmd.Wait()\<close>, which
  closes the pipe once the child has ended: \<open>cut\<close> says how the race went, \<open>None\<close>
  when the copy reached the end of the output and \<open>Some k\<close> when the pipe was closed
  after the copy had read \<open>k\<close> bytes.
\<close>

datatype fs_op = OpStat | OpCreate | OpWrite | OpRead | OpOpen | OpRemove | OpPipe

datatype errno = ENOENT | EOTHER

record osfile =
  content :: string
  mtime :: int

datatype kill_errno = ESRCH | EPERM

datatype wait_result = Exited "8 word" | Signaled | WaitFailed

record child_run =
  out :: string
  err :: string
  status :: wait_result
  dur :: int
  cut :: "nat option"

datatype spawn_result = StartError | Ran child_run

datatype ext_action =
    ExtIdle
  | ExtRemove string
  | ExtWrite string string
  | ExtProc int "kill_errno option"

record world =
  files :: "string \<Rightarrow> osfile option"
  faults :: "(fs_op \<times> string) list"
  now :: int
  kill0 :: "int \<Rightarrow> kill_errno option"
  Getpid :: int
  TempDir :: string
  stdout :: string
  stderr :: string
  verbose :: bool
  rand :: nat
  respond :: "string list \<Rightarrow> nat \<Rightarrow> spawn_result"
  spawned :: "string list list"
  pending :: "ext_action list"

definition fault :: "world \<Rightarrow> fs_op \<Rightarrow> string \<Rightarrow> bool" where
  "fault w op p = ((op, p) \<in> set (faults w))"

subsection \<open>os: files\<close>

definition Stat :: "world \<Rightarrow> string \<Rightarrow> errno + osfile" where
  "Stat w p =
     (if fault w OpStat p then Inl EOTHER
      else case files w p of None \<Rightarrow> Inl ENOENT | Some f \<Rightarrow> Inr f)"

text \<open>\<open>os.Create\<close> creates the file or truncates it; \<open>None\<close> is the error return.\<close>

definition Create :: "world \<Rightarrow> string \<Rightarrow> world option" where
  "Create w p =
     (if fault w OpCreate p then None
      else Some (w\<lparr>files := (files w)(p \<mapsto> \<lparr>content = [], mtime = now w\<rparr>)\<rparr>))"

text \<open>Writing through an open file appends at its end; a file removed since it was
  opened takes the bytes and shows nothing.\<close>

definition WriteString :: "world \<Rightarrow> string \<Rightarrow> string \<Rightarrow> world option" where
  "WriteString w p s =
     (if fault w OpWrite p then None
      else case files w p of
             None \<Rightarrow> Some w
           | Some f \<Rightarrow>
               Some (w\<lparr>files := (files w)(p \<mapsto> \<lparr>content = content f @ s, mtime = now w\<rparr>)\<rparr>))"

definition ReadFile :: "world \<Rightarrow> string \<Rightarrow> string option" where
  "ReadFile w p =
     (if fault w OpRead p then None else map_option content (files w p))"

definition Open :: "world \<Rightarrow> string \<Rightarrow> string option" where
  "Open w p =
     (if fault w OpOpen p then None else map_option content (files w p))"

text \<open>\<open>os.Remove\<close>; the program never looks at its error.\<close>

definition Remove :: "world \<Rightarrow> string \<Rightarrow> world" where
  "Remove w p = (if fault w OpRemove p then w else w\<lparr>files := (files w)(p := None)\<rparr>)"

definition Print :: "world \<Rightarrow> string \<Rightarrow> world" where
  "Print w s = w\<lparr>stdout := stdout w @ s\<rparr>"

definition Eprint :: "world \<Rightarrow> string \<Rightarrow> world" where
  "Eprint w s = w\<lparr>stderr := stderr w @ s\<rparr>"

text \<open>The text of an operating-system error, which \<open>%v\<close> prints, is not modelled: the
  messages carry this placeholder in its place.\<close>

definition errv :: string where
  "errv = ''<error>''"

section \<open>Cache Store\<close>

record CommandCache =
  Command :: "string list"
  CacheTimeout :: rat
  CacheDir :: string
  CommandHash :: string
  OutputCache :: string
  ExitFile :: string
  CmdFile :: string

definition getCacheDir :: "world \<Rightarrow> string" where
  "getCacheDir w = TempDir w"

text \<open>\<open>filepath.Join\<close> of a directory and a file name; the cleaning of the directory's
  own path is not modelled.\<close>

definition filepath_Join :: "string \<Rightarrow> string \<Rightarrow> string" where
  "filepath_Join d n = d @ ''/'' @ n"

definition NewCommandCache :: "digest \<Rightarrow> world \<Rightarrow> string list \<Rightarrow> rat \<Rightarrow> CommandCache" where
  "NewCommandCache md5 w command cacheTimeout =
     (let cacheDir = getCacheDir w;
          commandHash = GenerateCommandHash md5 command
      in \<lparr>Command = command,
          CacheTimeout = cacheTimeout,
          CacheDir = cacheDir,
          CommandHash = commandHash,
          OutputCache = filepath_Join cacheDir (commandHash @ ''.data''),
          ExitFile = filepath_Join cacheDir (commandHash @ ''.exit''),
          CmdFile = filepath_Join cacheDir (commandHash @ ''.cmd'')\<rparr>)"

definition IsValid :: "world \<Rightarrow> CommandCache \<Rightarrow> bool" where
  "IsValid w cc =
     (case Stat w (OutputCache cc) of
        Inl e \<Rightarrow> False
      | Inr info \<Rightarrow> Seconds (Sub (now w) (mtime info)) \<le> CacheTimeout cc)"

definition Invalidate :: "world \<Rightarrow> CommandCache \<Rightarrow> world" where
  "Invalidate w cc = Remove w (OutputCache cc)"

text \<open>\<open>CacheResult\<close> is not modelled: nothing calls it (its one call, in \<open>RunCached\<close>, is
  commented out).\<close>

section \<open>Execution Engine\<close>

text \<open>The double quote is \<open>CHR 0x22\<close>, the single quote \<open>CHR 0x27\<close> and the backslash
  \<open>CHR 0x5C\<close>.\<close>

fun CustomParse_loop ::
  "string \<Rightarrow> string list \<Rightarrow> string \<Rightarrow> bool \<Rightarrow> char \<Rightarrow> string list \<times> string \<times> bool \<times> char"
where
  "CustomParse_loop [] result token inQuotes quoteChar = (result, token, inQuotes, quoteChar)"
| "CustomParse_loop (r # rs) result token inQuotes quoteChar =
     (if inQuotes then
        (if r = quoteChar then CustomParse_loop rs result (token @ [r]) False quoteChar
         else CustomParse_loop rs result (token @ [r]) inQuotes quoteChar)
      else if r = CHR 0x22 \<or> r = CHR 0x27 then CustomParse_loop rs result (token @ [r]) True r
      else if IsSpace r then
        (if token \<noteq> [] then CustomParse_loop rs (result @ [token]) [] inQuotes quoteChar
         else CustomParse_loop rs result token inQuotes quoteChar)
      else CustomParse_loop rs result (token @ [r]) inQuotes quoteChar)"

text \<open>\<open>%q\<close> of a rune: the rune between single quotes, a single quote escaped.\<close>

definition quote_rune :: "char \<Rightarrow> string" where
  "quote_rune c =
     (if c = CHR 0x27 then [CHR 0x27, CHR 0x5C, CHR 0x27, CHR 0x27] else [CHR 0x27, c, CHR 0x27])"

text \<open>\<open>Inl\<close> is the error return, with the error's text.\<close>

definition CustomParse :: "string \<Rightarrow> string + string list" where
  "CustomParse input =
     (case CustomParse_loop input [] [] False (CHR 0x00) of
        (result, token, inQuotes, quoteChar) \<Rightarrow>
          let result' = (if token \<noteq> [] then result @ [token] else result)
          in if inQuotes then Inl (''unclosed quote: '' @ quote_rune quoteChar)
             else Inr result')"

text \<open>\<open>Inl\<close> is \<open>log.Fatal\<close>, with the line it logs (without the time stamp that
  \<open>log\<close> puts in front): the process exits at once with status 1.\<close>

definition ConstructBashCommand :: "string list \<Rightarrow> string + string" where
  "ConstructBashCommand args =
     (case CustomParse (Join args '' '') of
        Inl e \<Rightarrow> Inl (''Error parsing arguments:'' @ e)
      | Inr escapedArgs \<Rightarrow>
          (let argsStr = Join escapedArgs '' '';
               argsStr = ReplaceAll argsStr (CHR 0x22) [CHR 0x5C, CHR 0x22]
           in Inr argsStr))"

definition PreprocessArgument :: "string \<Rightarrow> string" where
  "PreprocessArgument arg =
     (let arg = ReplaceAll arg (CHR 0x5C) [CHR 0x5C, CHR 0x5C];
          arg = ReplaceAll arg (CHR 0x22) [CHR 0x5C, CHR 0x22]
      in if length arg \<ge> 2 \<and> hd arg = CHR 0x27 \<and> last arg = CHR 0x27
         then [CHR 0x5C, CHR 0x27] @ butlast (tl arg) @ [CHR 0x5C, CHR 0x27]
         else arg)"

definition PreprocessArguments :: "string list \<Rightarrow> string list" where
  "PreprocessArguments args = map PreprocessArgument args"

text \<open>How a function ends: it returns a value, or the process exits inside it
  (\<open>os.Exit\<close>, which runs no deferred call).\<close>

datatype outcome = Return int | OsExit int

text \<open>\<open>cmd.Start()\<close>: the child is logged and the world answers for it.\<close>

definition Start :: "world \<Rightarrow> string list \<Rightarrow> spawn_result \<times> world" where
  "Start w argv = (respond w argv (length (spawned w)), w\<lparr>spawned := spawned w @ [argv]\<rparr>)"

datatype wait_error = ExitError int | OtherError

text \<open>\<open>cmd.Wait()\<close>: no error for exit status 0; an \<open>*exec.ExitError\<close> for another exit
  status or a signal, whose \<open>ExitCode()\<close> is the status, or -1 for a signal.\<close>

definition Wait :: "wait_result \<Rightarrow> wait_error option" where
  "Wait r =
     (case r of
        Exited c \<Rightarrow> if c = 0 then None else Some (ExitError (uint c))
      | Signaled \<Rightarrow> Some (ExitError (- 1))
      | WaitFailed \<Rightarrow> Some OtherError)"

text \<open>
  The goroutine's \<open>io.Copy(multiWriter, teeReader)\<close>: what the copy reads of the child's
  standard output goes to \<open>os.Stdout\<close>, then to the cache file; \<open>os.Stdout\<close> always
  takes the bytes. The bytes read are written in one piece, when the child has ended.
  A copy that ends on an error (a failed write to the cache file, or a read from the
  pipe that \<open>cmd.Wait()\<close> has closed) prints the error on standard output.
\<close>

definition copied :: "child_run \<Rightarrow> string" where
  "copied child = (case cut child of None \<Rightarrow> out child | Some k \<Rightarrow> take k (out child))"

definition copy_error :: string where
  "copy_error = ''Error copying to writers: '' @ errv @ [CHR 0x0A]"

definition CopyOutput :: "world \<Rightarrow> string \<Rightarrow> child_run \<Rightarrow> world" where
  "CopyOutput w cacheFile child =
     (let data = copied child in
      if data = [] then (if cut child = None then w else Print w copy_error)
      else let w = Print w data
           in case WriteString w cacheFile data of
                None \<Rightarrow> Print w copy_error
              | Some w' \<Rightarrow> (if cut child = None then w' else Print w' copy_error))"

definition ExecuteCommand :: "world \<Rightarrow> string list \<Rightarrow> CommandCache \<Rightarrow> outcome \<times> world" where
  "ExecuteCommand w command cache =
     (case ConstructBashCommand command of
        Inl msg \<Rightarrow> (OsExit 1, Eprint w (msg @ [CHR 0x0A]))
      | Inr line \<Rightarrow>
          (let command = [''bash'', ''-i'', ''-c'', line] in
           (if fault w OpPipe [] then
              (Return 1, Print w (''Error creating pipe: '' @ errv @ [CHR 0x0A]))
            else
              (case Create w (OutputCache cache) of
                 None \<Rightarrow>
                   (Return 1, Eprint w (''Failed to create cache file: '' @ errv @ [CHR 0x0A]))
               | Some w \<Rightarrow>
                   (case Start w command of
                      (StartError, w) \<Rightarrow>
                        (Return 1, Eprint w (''Failed to start command: '' @ errv @ [CHR 0x0A]))
                    | (Ran child, w) \<Rightarrow>
                        (let w = Eprint (w\<lparr>now := now w + dur child\<rparr>) (err child);
                             w = CopyOutput w (OutputCache cache) child
                         in (case Wait (status child) of
                               Some (ExitError code) \<Rightarrow>
                                 (case Create w (ExitFile cache) of
                                    None \<Rightarrow>
                                      (Return 1,
                                       Eprint w (''Failed to create exit file: '' @ errv
                                                 @ [CHR 0x0A]))
                                  | Some w \<Rightarrow>
                                      (case WriteString w (ExitFile cache) (Itoa code) of
                                         None \<Rightarrow>
                                           (Return 1,
                                            Eprint w (''Failed to write exit code to file: ''
                                                      @ errv @ [CHR 0x0A]))
                                       | Some w \<Rightarrow> (Return code, w)))
                             | Some OtherError \<Rightarrow> (Return 1, w)
                             | None \<Rightarrow> (Return 0, w))))))))"

section \<open>Mutual-Exclusion Guard\<close>

definition defaultCacheTimeoutSec :: rat where
  "defaultCacheTimeoutSec = 20"

definition maxWaitPrevSec :: int where
  "maxWaitPrevSec = 5"

definition minRandSec :: int where
  "minRandSec = 0"

definition maxRandSec :: int where
  "maxRandSec = 0"

definition apply_ext :: "ext_action \<Rightarrow> world \<Rightarrow> world" where
  "apply_ext a w =
     (case a of
        ExtIdle \<Rightarrow> w
      | ExtRemove p \<Rightarrow> w\<lparr>files := (files w)(p := None)\<rparr>
      | ExtWrite p s \<Rightarrow> w\<lparr>files := (files w)(p \<mapsto> \<lparr>content = s, mtime = now w\<rparr>)\<rparr>
      | ExtProc n pr \<Rightarrow> w\<lparr>kill0 := (kill0 w)(n := pr)\<rparr>)"

text \<open>\<open>time.Sleep(1 * time.Second)\<close>: the clock moves on by a second and the other
  processes make their next move.\<close>

definition Sleep1 :: "world \<Rightarrow> world" where
  "Sleep1 w =
     (let w = w\<lparr>now := now w + second\<rparr>
      in case pending w of
           [] \<Rightarrow> w
         | a # as \<Rightarrow> apply_ext a (w\<lparr>pending := as\<rparr>))"

text \<open>\<open>rand.Intn(n)\<close>, from the world's random number.\<close>

definition Intn :: "world \<Rightarrow> int \<Rightarrow> int" where
  "Intn w n = int (rand w) mod n"

definition getPidFromFile :: "world \<Rightarrow> string \<Rightarrow> int" where
  "getPidFromFile w fileName =
     (case ReadFile w fileName of
        None \<Rightarrow> - 1
      | Some data \<Rightarrow>
          (case Atoi (TrimSpace data) of
             (pid, ok) \<Rightarrow> if ok then pid else - 1))"

text \<open>
  The errors that probing a process can give. On Unix \<open>os.FindProcess\<close> always
  succeeds, whether the process exists or not; \<open>Process.Signal\<close> turns the \<open>ESRCH\<close> of
  the system call into \<open>os.ErrProcessDone\<close> and returns any other error number as it
  is; \<open>errors.Is\<close> compares the error with its target (none of these errors wraps
  another).
\<close>

datatype go_error =
    ErrProcessDone
  | ErrProcessReleased
  | ErrProcessNotInitialized
  | Errno kill_errno

definition FindProcess :: "world \<Rightarrow> int \<Rightarrow> go_error + int" where
  "FindProcess w pid = Inr pid"

definition Signal0 :: "world \<Rightarrow> int \<Rightarrow> go_error option" where
  "Signal0 w pid =
     (if pid = - 1 then Some ErrProcessReleased
      else if pid = 0 then Some ErrProcessNotInitialized
      else case kill0 w pid of
             None \<Rightarrow> None
           | Some e \<Rightarrow> (case e of ESRCH \<Rightarrow> Some ErrProcessDone | EPERM \<Rightarrow> Some (Errno EPERM)))"

definition errors_Is :: "go_error \<Rightarrow> go_error \<Rightarrow> bool" where
  "errors_Is e target = (e = target)"

definition isProcessRunning :: "world \<Rightarrow> int \<Rightarrow> bool" where
  "isProcessRunning w pid =
     (case FindProcess w pid of
        Inl e \<Rightarrow> False
      | Inr process \<Rightarrow>
          (case Signal0 w process of
             Some e \<Rightarrow> (if errors_Is e (Errno ESRCH) then False else True)
           | None \<Rightarrow> True))"

text \<open>The loop \<open>for i := 0; i < waitTimeSec; i++\<close>, from the value of \<open>i\<close> on.\<close>

function waitLoop :: "world \<Rightarrow> string \<Rightarrow> int \<Rightarrow> int \<Rightarrow> bool \<times> world" where
  "waitLoop w pidFile i waitTimeSec =
     (if i < waitTimeSec then
        (if Stat w pidFile = Inl ENOENT then (True, w)
         else
           let n = getPidFromFile w pidFile in
           if n = - 1 then (False, Remove w pidFile)
           else if \<not> isProcessRunning w n then (False, Remove w pidFile)
           else waitLoop (Sleep1 w) pidFile (i + 1) waitTimeSec)
      else (False, w))"
  by pat_completeness auto
termination
  by (relation "measure (\<lambda>(w, pidFile, i, waitTimeSec). nat (waitTimeSec - i))") auto

declare waitLoop.simps [simp del]

definition waitForPreviousCommand :: "world \<Rightarrow> string \<Rightarrow> int \<Rightarrow> bool \<times> world" where
  "waitForPreviousCommand w pidFile waitTimeSec = waitLoop w pidFile 0 waitTimeSec"

text \<open>The empty string is the failure return.\<close>

definition CreatePidFile :: "digest \<Rightarrow> world \<Rightarrow> string list \<Rightarrow> string \<times> world" where
  "CreatePidFile md5 w command =
     (let cacheDir = getCacheDir w;
          commandHash = GenerateCommandHash md5 command;
          pidFile = filepath_Join cacheDir (commandHash @ ''.pid'');
          w = (if maxRandSec - minRandSec > 0
               then (Sleep1 ^^ nat (Intn w (maxRandSec - minRandSec) + minRandSec)) w
               else w)
      in case waitForPreviousCommand w pidFile maxWaitPrevSec of
           (False, w) \<Rightarrow> ([], w)
         | (True, w) \<Rightarrow>
             (case Create w pidFile of
                None \<Rightarrow> ([], Eprint w (''Failed to create PID file: '' @ errv @ [CHR 0x0A]))
              | Some w \<Rightarrow>
                  (case WriteString w pidFile (Itoa (Getpid w)) of
                     None \<Rightarrow>
                       ([], Eprint w (''Failed to write PID to file: '' @ errv @ [CHR 0x0A]))
                   | Some w \<Rightarrow> (pidFile, w))))"

section \<open>Orchestrator\<close>

definition sendTextToStdout :: "world \<Rightarrow> string \<Rightarrow> bool \<times> world" where
  "sendTextToStdout w textFile =
     (case Open w textFile of
        None \<Rightarrow> (False, Eprint w (''Failed to open file: '' @ errv @ [CHR 0x0A]))
      | Some data \<Rightarrow> (True, Print w data))"

definition readFileOrDefault :: "world \<Rightarrow> string \<Rightarrow> string \<Rightarrow> string" where
  "readFileOrDefault w path defaultValue =
     (case ReadFile w path of None \<Rightarrow> defaultValue | Some data \<Rightarrow> data)"

text \<open>\<open>defer os.Remove(pidFile)\<close> runs when \<open>RunCached\<close> returns, not when the process
  exits inside \<open>ExecuteCommand\<close>.\<close>

definition RunCached ::
  "digest \<Rightarrow> world \<Rightarrow> string list \<Rightarrow> rat \<Rightarrow> bool \<Rightarrow> bool \<Rightarrow> outcome \<times> world"
where
  "RunCached md5 w command cacheTimeout cacheOnError cacheOnAbort =
     (case CreatePidFile md5 w command of
        (pidFile, w) \<Rightarrow>
          if pidFile = [] then
            (Return 2,
             Eprint w (''Timeout waiting for previous command to finish'' @ [CHR 0x0A]))
          else
            let cache = NewCommandCache md5 w command cacheTimeout in
            if IsValid w cache then
              (let w = (if verbose w then Print w (''Returning cached result'' @ [CHR 0x0A])
                        else w);
                   w = snd (sendTextToStdout w (OutputCache cache));
                   returnCode = fst (Atoi (readFileOrDefault w (ExitFile cache) ''0''))
               in (Return returnCode, Remove w pidFile))
            else
              (let w = (if verbose w then Print w (''Executing command'' @ [CHR 0x0A]) else w)
               in case ExecuteCommand w command cache of
                    (OsExit code, w) \<Rightarrow> (OsExit code, w)
                  | (Return returnCode, w) \<Rightarrow>
                      let w = (if returnCode \<noteq> 0 \<and> \<not> cacheOnError then Invalidate w cache
                               else w)
                      in (Return returnCode, Remove w pidFile)))"

text \<open>\<open>main\<close> passes \<open>os.Args[1:]\<close> through \<open>PreprocessArguments\<close>, lets \<open>flag\<close> take the
  options off (not modelled) and ends with \<open>os.Exit(RunCached(..))\<close>: the status the
  process exits with.\<close>

definition exit_status :: "outcome \<Rightarrow> int" where
  "exit_status r = (case r of Return code \<Rightarrow> code | OsExit code \<Rightarrow> code)"

section \<open>Predicates used to state the properties\<close>

definition no_space :: "string \<Rightarrow> bool" where
  "no_space a = (CHR '' '' \<notin> set a)"

text \<open>The lock file of a command.\<close>

definition pidFile_of :: "digest \<Rightarrow> world \<Rightarrow> string list \<Rightarrow> string" where
  "pidFile_of md5 w command =
     filepath_Join (getCacheDir w) (GenerateCommandHash md5 command @ ''.pid'')"

text \<open>The process id a lock file records, when it can be read and parsed; the lock is
  live when that process exists and stale when there is no such process.\<close>

definition lock_pid :: "world \<Rightarrow> string \<Rightarrow> int option" where
  "lock_pid w p =
     (case files w p of
        None \<Rightarrow> None
      | Some f \<Rightarrow>
          if fault w OpRead p then None
          else case Atoi (TrimSpace (content f)) of
                 (n, ok) \<Rightarrow> if ok \<and> n \<noteq> - 1 then Some n else None)"

definition lock_live :: "world \<Rightarrow> string \<Rightarrow> bool" where
  "lock_live w p =
     (case lock_pid w p of
        None \<Rightarrow> False
      | Some n \<Rightarrow> kill0 w n = None \<or> kill0 w n = Some EPERM)"

definition lock_stale :: "world \<Rightarrow> string \<Rightarrow> bool" where
  "lock_stale w p =
     (case lock_pid w p of
        None \<Rightarrow> False
      | Some n \<Rightarrow> kill0 w n = Some ESRCH)"

text \<open>The lock is live at each of \<open>k\<close> looks, one second apart.\<close>

fun held_live :: "nat \<Rightarrow> world \<Rightarrow> string \<Rightarrow> bool" where
  "held_live 0 w p = True"
| "held_live (Suc k) w p = (lock_live w p \<and> held_live k (Sleep1 w) p)"

text \<open>A world to evaluate the program in: an empty \<open>/tmp\<close>, no failing system call, no
  other process.\<close>

definition world0 :: world where
  "world0 =
     \<lparr>files = Map.empty, faults = [], now = 0, kill0 = (\<lambda>n. Some ESRCH), Getpid = 4242,
      TempDir = ''/tmp'', stdout = [], stderr = [], verbose = False, rand = 0,
      respond = (\<lambda>argv n. StartError), spawned = [], pending = []\<rparr>"

text \<open>Inputs to evaluate the program at: a stand-in for the digest, under which every
  command has the key \<open>ab\<close>, and four children, whose output is copied to its end.\<close>

definition digest0 :: digest where
  "digest0 s = [0xab]"

definition failing_child :: "string list \<Rightarrow> nat \<Rightarrow> spawn_result" where
  "failing_child argv n = Ran \<lparr>out = ''boom'', err = [], status = Exited 3, dur = 0, cut = None\<rparr>"

definition noisy_child :: "string list \<Rightarrow> nat \<Rightarrow> spawn_result" where
  "noisy_child argv n = Ran \<lparr>out = ''result'', err = ''warning'', status = Exited 0, dur = 0, cut = None\<rparr>"

definition flaky_child :: "string list \<Rightarrow> nat \<Rightarrow> spawn_result" where
  "flaky_child argv n =
     Ran \<lparr>out = ''data'', err = [], status = (if n = 0 then Exited 3 else Exited 0), dur = 0, cut = None\<rparr>"

definition quiet_child :: "string list \<Rightarrow> nat \<Rightarrow> spawn_result" where
  "quiet_child argv n = Ran \<lparr>out = ''ok'', err = [], status = Exited 0, dur = 0, cut = None\<rparr>"

text \<open>Invocations of the same command, one after the other: the outcome of each and
  the world they leave.\<close>

fun invocations ::
  "digest \<Rightarrow> world \<Rightarrow> string list \<Rightarrow> rat \<Rightarrow> bool \<Rightarrow> bool \<Rightarrow> nat \<Rightarrow> outcome list \<times> world"
where
  "invocations md5 w command t e a 0 = ([], w)"
| "invocations md5 w command t e a (Suc n) =
     (case RunCached md5 w command t e a of
        (r, w') \<Rightarrow>
          (case invocations md5 w' command t e a n of
             (rs, w'') \<Rightarrow> (r # rs, w'')))"

section \<open>Properties of the library functions\<close>

subsection \<open>Rounding\<close>

text \<open>The exponent that \<open>expo\<close> finds is the right one; rounding moves a number by at
  most half a unit of its last place, and leaves an integer below \<open>2 ^ 53\<close> as it is;
  \<open>Seconds\<close> is within \<open>1 / 2 ^ 19\<close> of the exact quotient.\<close>

lemma ilog2_nonneg: "0 \<le> ilog2 n"
  by (induction n rule: ilog2.induct) (subst ilog2.simps, simp)

lemma ilog2_le: "1 \<le> n \<Longrightarrow> 2 ^ nat (ilog2 n) \<le> n"
proof (induction n rule: ilog2.induct)
  case (1 n)
  show ?case
  proof (cases "n < 2")
    case True
    with "1.prems" show ?thesis by (subst ilog2.simps) simp
  next
    case False
    then have "1 \<le> n div 2" by simp
    with "1.IH" False have ih: "2 ^ nat (ilog2 (n div 2)) \<le> n div 2" by simp
    have "nat (1 + ilog2 (n div 2)) = Suc (nat (ilog2 (n div 2)))"
      using ilog2_nonneg [of "n div 2"] by simp
    then have "(2::int) ^ nat (1 + ilog2 (n div 2)) = 2 * 2 ^ nat (ilog2 (n div 2))" by simp
    also have "\<dots> \<le> 2 * (n div 2)" using ih by simp
    also have "\<dots> \<le> n" by simp
    finally show ?thesis using False by (subst ilog2.simps) simp
  qed
qed

lemma ilog2_gt: "n < 2 ^ nat (ilog2 n + 1)"
proof (induction n rule: ilog2.induct)
  case (1 n)
  show ?case
  proof (cases "n < 2")
    case True
    then show ?thesis by (subst ilog2.simps) simp
  next
    case False
    with "1.IH" have ih: "n div 2 < 2 ^ nat (ilog2 (n div 2) + 1)" by simp
    have "nat (1 + ilog2 (n div 2) + 1) = Suc (nat (ilog2 (n div 2) + 1))"
      using ilog2_nonneg [of "n div 2"] by simp
    then have e: "(2::int) ^ nat (1 + ilog2 (n div 2) + 1) = 2 * 2 ^ nat (ilog2 (n div 2) + 1)"
      by simp
    from ih have "n div 2 + 1 \<le> 2 ^ nat (ilog2 (n div 2) + 1)" by simp
    then have "2 * (n div 2) + 2 \<le> 2 * 2 ^ nat (ilog2 (n div 2) + 1)" by simp
    moreover have "n < 2 * (n div 2) + 2" by simp
    ultimately have "n < 2 * 2 ^ nat (ilog2 (n div 2) + 1)" by simp
    with e False show ?thesis by (subst ilog2.simps) simp
  qed
qed

lemma powi_ilog2_le: "1 \<le> n \<Longrightarrow> (2::rat) powi ilog2 n \<le> of_int n"
proof -
  assume "1 \<le> n"
  from ilog2_le [OF this] have "(of_int (2 ^ nat (ilog2 n)) :: rat) \<le> of_int n"
    by (simp only: of_int_le_iff)
  then show ?thesis using ilog2_nonneg [of n] by (simp add: power_int_def)
qed

lemma powi_ilog2_gt: "(of_int n :: rat) < 2 powi (ilog2 n + 1)"
proof -
  from ilog2_gt [of n] have "(of_int n :: rat) < of_int (2 ^ nat (ilog2 n + 1))"
    by (simp only: of_int_less_iff)
  then show ?thesis using ilog2_nonneg [of n] by (simp add: power_int_def)
qed

lemma expo_le:
  assumes "0 < x"
  shows "2 powi expo x \<le> x"
proof -
  obtain p q where pq: "quotient_of x = (p, q)" by (cases "quotient_of x")
  then have q: "0 < q" and x: "x = of_int p / of_int q"
    by (simp_all add: quotient_of_denom_pos quotient_of_div)
  from assms x q have p: "1 \<le> p" by (simp add: zero_less_divide_iff)
  let ?k = "ilog2 p - ilog2 q"
  show ?thesis
  proof (cases "2 powi ?k \<le> x")
    case True
    with pq show ?thesis by (simp add: expo_def)
  next
    case False
    have a: "(2::rat) powi ilog2 p \<le> of_int p" by (rule powi_ilog2_le [OF p])
    have b: "(of_int q :: rat) < 2 powi (ilog2 q + 1)" by (rule powi_ilog2_gt)
    have "(2::rat) powi (?k - 1) = 2 powi ilog2 p / 2 powi (ilog2 q + 1)"
      by (simp add: power_int_diff [symmetric] algebra_simps)
    also have "\<dots> \<le> of_int p / 2 powi (ilog2 q + 1)"
      using a by (simp add: divide_right_mono)
    also have "\<dots> \<le> of_int p / of_int q"
      using b p q by (intro divide_left_mono) simp_all
    finally have "(2::rat) powi (?k - 1) \<le> x" using x by simp
    with False pq show ?thesis by (simp add: expo_def)
  qed
qed

lemma expo_gt:
  assumes "0 < x"
  shows "x < 2 powi (expo x + 1)"
proof -
  obtain p q where pq: "quotient_of x = (p, q)" by (cases "quotient_of x")
  then have q: "0 < q" and x: "x = of_int p / of_int q"
    by (simp_all add: quotient_of_denom_pos quotient_of_div)
  from assms x q have p: "1 \<le> p" by (simp add: zero_less_divide_iff)
  let ?k = "ilog2 p - ilog2 q"
  show ?thesis
  proof (cases "2 powi ?k \<le> x")
    case True
    have a: "(of_int p :: rat) < 2 powi (ilog2 p + 1)" by (rule powi_ilog2_gt)
    have b: "(2::rat) powi ilog2 q \<le> of_int q" using q by (intro powi_ilog2_le) simp
    have "x = of_int p / of_int q" by (rule x)
    also have "\<dots> < 2 powi (ilog2 p + 1) / of_int q"
      using a q by (simp add: divide_strict_right_mono)
    also have "\<dots> \<le> 2 powi (ilog2 p + 1) / 2 powi ilog2 q"
      using b q by (intro divide_left_mono) simp_all
    also have "\<dots> = 2 powi (?k + 1)"
      by (simp add: power_int_diff [symmetric] algebra_simps)
    finally show ?thesis using True pq by (simp add: expo_def)
  next
    case False
    with pq show ?thesis by (simp add: expo_def)
  qed
qed

lemma expo_upper:
  assumes "0 < x" "x < 2 powi (K + 1)"
  shows "expo x \<le> K"
proof -
  from expo_le [OF assms(1)] assms(2) have lt: "(2::rat) powi expo x < 2 powi (K + 1)" by simp
  show ?thesis
  proof (rule ccontr)
    assume "\<not> expo x \<le> K"
    then have "K + 1 \<le> expo x" by simp
    then have "(2::rat) powi (K + 1) \<le> 2 powi expo x" by (intro power_int_increasing) simp_all
    with lt show False by simp
  qed
qed

lemma round_half_even_err: "\<bar>of_int (round_half_even x) - x\<bar> \<le> 1 / 2"
proof -
  define f where "f = \<lfloor>x\<rfloor>"
  have a: "of_int f \<le> x" "x < of_int f + 1" unfolding f_def by linarith+
  show ?thesis
    unfolding round_half_even_def Let_def f_def [symmetric]
    using a by (auto simp: abs_if)
qed

lemma round_half_even_of_int [simp]: "round_half_even (of_int n) = n"
  by (simp add: round_half_even_def)

lemma round64_err:
  assumes "x \<noteq> 0"
  shows "\<bar>round64 x - x\<bar> \<le> 2 powi (expo \<bar>x\<bar> - 52) / 2"
proof -
  let ?u = "(2::rat) powi (expo \<bar>x\<bar> - 52)"
  let ?r = "round_half_even (\<bar>x\<bar> / ?u)"
  have u: "0 < ?u" by simp
  have "round64 x - x = sgn x * (of_int ?r * ?u - \<bar>x\<bar>)"
    using assms by (cases "0 < x") (simp_all add: round64_def Let_def sgn_if algebra_simps)
  then have "\<bar>round64 x - x\<bar> = \<bar>sgn x\<bar> * \<bar>of_int ?r * ?u - \<bar>x\<bar>\<bar>"
    by (simp only: abs_mult)
  also have "\<dots> = \<bar>of_int ?r * ?u - \<bar>x\<bar>\<bar>"
    using assms by (simp add: sgn_if)
  also have "\<dots> = \<bar>of_int ?r - \<bar>x\<bar> / ?u\<bar> * ?u"
  proof -
    have "of_int ?r * ?u - \<bar>x\<bar> = (of_int ?r - \<bar>x\<bar> / ?u) * ?u"
      using u by (simp add: field_simps)
    then show ?thesis using u by (simp add: abs_mult)
  qed
  also have "\<dots> \<le> (1 / 2) * ?u"
    using round_half_even_err [of "\<bar>x\<bar> / ?u"] u by (intro mult_right_mono) simp_all
  finally show ?thesis by simp
qed

lemma round64_err_bound:
  assumes "\<bar>x\<bar> < 2 powi (K + 1)"
  shows "\<bar>round64 x - x\<bar> \<le> 2 powi (K - 53)"
proof (cases "x = 0")
  case True
  then show ?thesis by (simp add: round64_def)
next
  case False
  then have "0 < \<bar>x\<bar>" by simp
  from expo_upper [OF this assms] have "expo \<bar>x\<bar> - 52 \<le> K - 52" by simp
  then have "(2::rat) powi (expo \<bar>x\<bar> - 52) \<le> 2 powi (K - 52)"
    by (intro power_int_increasing) simp_all
  moreover have "(2::rat) powi (K - 52) / 2 = 2 powi (K - 53)"
  proof -
    have "(2::rat) powi (K - 52) = 2 powi (K - 53 + 1)" by simp
    also have "\<dots> = 2 powi (K - 53) * 2" by (subst power_int_add) simp_all
    finally show ?thesis by simp
  qed
  ultimately show ?thesis using round64_err [OF False] by simp
qed

lemma float64_exact:
  assumes "\<bar>i\<bar> < 2 ^ 53"
  shows "float64 i = of_int i"
proof (cases "i = 0")
  case True
  then show ?thesis by (simp add: float64_def round64_def)
next
  case False
  let ?x = "of_int i :: rat"
  have pos: "0 < \<bar>?x\<bar>" using False by simp
  have "\<bar>?x\<bar> < 2 powi (52 + 1)"
  proof -
    have "\<bar>?x\<bar> = of_int \<bar>i\<bar>" by simp
    also have "\<dots> < of_int (2 ^ 53)" using assms by (simp only: of_int_less_iff)
    finally show ?thesis by simp
  qed
  from expo_upper [OF pos this] have e: "expo \<bar>?x\<bar> \<le> 52" .
  define n where "n = nat (52 - expo \<bar>?x\<bar>)"
  have u: "(2::rat) powi (expo \<bar>?x\<bar> - 52) = 1 / 2 ^ n"
  proof -
    have "expo \<bar>?x\<bar> - 52 = - int n" using e by (simp add: n_def)
    then show ?thesis by (simp add: power_int_minus_divide)
  qed
  have "\<bar>?x\<bar> / (1 / 2 ^ n) = of_int (\<bar>i\<bar> * 2 ^ n)" by simp
  then have "round_half_even (\<bar>?x\<bar> / (1 / 2 ^ n)) = \<bar>i\<bar> * 2 ^ n"
    by (simp only: round_half_even_of_int)
  then have "round64 ?x = sgn ?x * of_int (\<bar>i\<bar> * 2 ^ n) * (1 / 2 ^ n)"
    using False by (simp add: round64_def Let_def u)
  also have "\<dots> = sgn ?x * \<bar>?x\<bar>" by simp
  also have "\<dots> = ?x" by (simp add: mult_sgn_abs)
  finally show ?thesis by (simp add: float64_def)
qed


lemma quo_rem:
  assumes "0 < b"
  shows "a = b * quo a b + rem a b" and "\<bar>rem a b\<bar> < b" and "\<bar>quo a b\<bar> = \<bar>a\<bar> div b"
proof -
  show "a = b * quo a b + rem a b"
  proof (cases "0 \<le> a")
    case True
    then have "quo a b = a div b" "rem a b = a mod b"
      by (simp_all add: quo_def rem_def sgn_if)
    then show ?thesis by simp
  next
    case False
    then have "quo a b = - ((- a) div b)" "rem a b = - ((- a) mod b)"
      by (simp_all add: quo_def rem_def sgn_if)
    then have "b * quo a b + rem a b = - (b * ((- a) div b) + (- a) mod b)"
      by (simp only: mult_minus_right minus_add_distrib)
    then show ?thesis by simp
  qed
  have "0 \<le> \<bar>a\<bar> mod b" "\<bar>a\<bar> mod b < b" using assms by simp_all
  then show "\<bar>rem a b\<bar> < b" by (simp add: rem_def abs_mult sgn_if)
  have "0 \<le> \<bar>a\<bar> div b" using assms by (simp add: pos_imp_zdiv_nonneg_iff)
  then show "\<bar>quo a b\<bar> = \<bar>a\<bar> div b"
    by (cases "a = 0") (simp_all add: quo_def abs_mult sgn_if)
qed

lemma Seconds_err:
  assumes "minDuration \<le> d" "d \<le> maxDuration"
  shows "\<bar>Seconds d - of_int d / 10 ^ 9\<bar> \<le> 1 / 2 ^ 19"
proof -
  define sec where "sec = quo d second"
  define nsec where "nsec = rem d second"
  have s0: "0 < second" by (simp add: second_def)
  note qr = quo_rem [OF s0, of d, folded sec_def nsec_def]
  from assms have "\<bar>d\<bar> \<le> 2 ^ 63" by (simp add: minDuration_def maxDuration_def)
  then have "\<bar>d\<bar> div second \<le> 2 ^ 63 div second" by (rule zdiv_mono1) (rule s0)
  with qr(3) have sec: "\<bar>sec\<bar> \<le> 9223372036" by (simp add: second_def)
  from qr(2) have nsec: "\<bar>nsec\<bar> < 1000000000" by (simp add: second_def)
  have fs: "float64 sec = of_int sec" using sec by (intro float64_exact) simp
  have fn: "float64 nsec = of_int nsec" using nsec by (intro float64_exact) simp
  define y0 :: rat where "y0 = of_int nsec / 1000000000"
  define y where "y = round64 y0"
  define s where "s = of_int sec + y"
  have S: "Seconds d = round64 s"
    by (simp add: Seconds_def Let_def fs fn sec_def [symmetric] nsec_def [symmetric]
          s_def y_def y0_def)
  have y0: "\<bar>y0\<bar> < 1"
  proof -
    have "\<bar>y0\<bar> = of_int \<bar>nsec\<bar> / 1000000000" by (simp add: y0_def)
    also have "\<dots> < 1" using nsec by simp
    finally show ?thesis .
  qed
  then have "\<bar>y0\<bar> < 2 powi (- 1 + 1)" by simp
  from round64_err_bound [OF this] have ey: "\<bar>y - y0\<bar> \<le> 1 / 2 ^ 54"
    by (simp add: y_def power_int_minus_divide)
  have "\<bar>s\<bar> \<le> \<bar>of_int sec\<bar> + \<bar>y\<bar>" unfolding s_def by (rule abs_triangle_ineq)
  also have "\<bar>y\<bar> \<le> \<bar>y0\<bar> + \<bar>y - y0\<bar>" by simp
  also have "\<bar>of_int sec :: rat\<bar> = of_int \<bar>sec\<bar>" by simp
  also have "(of_int \<bar>sec\<bar> :: rat) \<le> 9223372036"
    using sec by (metis of_int_le_iff of_int_numeral)
  finally have "\<bar>s\<bar> \<le> 9223372036 + (\<bar>y0\<bar> + \<bar>y - y0\<bar>)" by simp
  with y0 ey have "\<bar>s\<bar> < 2 powi (33 + 1)" by simp
  from round64_err_bound [OF this] have es: "\<bar>round64 s - s\<bar> \<le> 1 / 2 ^ 20"
    by (simp add: power_int_minus_divide)
  have "of_int d = (of_int second * of_int sec + of_int nsec :: rat)"
    using qr(1) by (metis of_int_add of_int_mult)
  then have ex: "of_int d / 1000000000 = of_int sec + y0"
    by (simp add: second_def y0_def field_simps)
  have "Seconds d - of_int d / 10 ^ 9 = (round64 s - s) + (y - y0)"
    by (simp add: S ex s_def)
  then have "\<bar>Seconds d - of_int d / 10 ^ 9\<bar> \<le> \<bar>round64 s - s\<bar> + \<bar>y - y0\<bar>"
    by (simp only: abs_triangle_ineq)
  with es ey show ?thesis by simp
qed

lemma Sub_exact: "minDuration \<le> t - u \<Longrightarrow> t - u \<le> maxDuration \<Longrightarrow> Sub t u = t - u"
  by (simp add: Sub_def)

lemma Sub_range: "minDuration \<le> Sub t u \<and> Sub t u \<le> maxDuration"
  by (simp add: Sub_def Let_def minDuration_def maxDuration_def)

lemma Sub_same: "Sub t t = 0"
  by (simp add: Sub_def maxDuration_def minDuration_def)

lemma Seconds_0: "Seconds 0 = 0"
  by (simp add: Seconds_def quo_def rem_def float64_def round64_def)

subsection \<open>Evaluation\<close>

text \<open>The definitions that evaluating the program at a given input unfolds.\<close>

lemmas eval_defs =
  RunCached_def CreatePidFile_def waitForPreviousCommand_def waitLoop.simps
  NewCommandCache_def IsValid_def Invalidate_def ExecuteCommand_def
  ConstructBashCommand_def CustomParse_def quote_rune_def PreprocessArguments_def
  PreprocessArgument_def ReplaceAll_def IsSpace_def TrimSpace_def
  Stat_def Create_def WriteString_def ReadFile_def Open_def Remove_def Print_def Eprint_def
  fault_def getCacheDir_def filepath_Join_def getPidFromFile_def isProcessRunning_def
  FindProcess_def Signal0_def errors_Is_def
  Sleep1_def apply_ext_def Intn_def Start_def Wait_def CopyOutput_def copied_def copy_error_def
  sendTextToStdout_def readFileOrDefault_def
  maxWaitPrevSec_def minRandSec_def maxRandSec_def second_def Sub_same Seconds_0 errv_def
  Atoi_def signed_digits_def is_digit_def Itoa_def decimal.simps digit_def
  pidFile_of_def world0_def Let_def

lemma hash0: "GenerateCommandHash digest0 command = ''ab''"
  by (simp add: GenerateCommandHash_def hextable_def digest0_def)

lemma hextable_nth_inj:
  assumes "i < 16" "j < 16" "hextable ! i = hextable ! j"
  shows "i = j"
proof -
  have d: "distinct hextable" by (simp add: hextable_def)
  have l: "length hextable = 16" by (simp add: hextable_def)
  from assms d l show ?thesis by (simp add: nth_eq_iff_index_eq)
qed

lemma hi_nibble_lt: "unat (drop_bit 4 (v :: 8 word)) < 16"
proof -
  have "unat (drop_bit 4 v) = unat v div 2 ^ 4" by (simp add: drop_bit_eq_div unat_div)
  moreover have "unat v < 256" using unsigned_less [of v] by simp
  ultimately show ?thesis by simp
qed

lemma lo_nibble_lt: "unat ((v :: 8 word) AND 0x0f) < 16"
proof -
  have "v AND 0x0f = take_bit 4 v" by (simp add: take_bit_eq_mask mask_eq_exp_minus_1)
  then have "unat (v AND 0x0f) = take_bit 4 (unat v)" by (simp add: unsigned_take_bit_eq)
  then show ?thesis by (simp add: take_bit_eq_mod)
qed

lemma nibbles_inj:
  assumes "drop_bit 4 (v :: 8 word) = drop_bit 4 v'" "v AND 0x0f = v' AND 0x0f"
  shows "v = v'"
proof -
  have m: "\<And>x :: 8 word. x AND 0x0f = take_bit 4 x" by (simp add: take_bit_eq_mask mask_eq_exp_minus_1)
  have "v = push_bit 4 (drop_bit 4 v) + take_bit 4 v" by (simp add: bits_ident)
  also have "\<dots> = push_bit 4 (drop_bit 4 v') + take_bit 4 v'" using assms m by simp
  also have "\<dots> = v'" by (simp add: bits_ident)
  finally show ?thesis .
qed

lemma EncodeToString_inj: "EncodeToString xs = EncodeToString ys \<Longrightarrow> xs = ys"
proof (induction xs arbitrary: ys)
  case Nil
  then show ?case by (cases ys) simp_all
next
  case (Cons v vs)
  then obtain v' vs' where ys: "ys = v' # vs'" by (cases ys) auto
  from Cons.prems ys have
    hi: "hextable ! unat (drop_bit 4 v) = hextable ! unat (drop_bit 4 v')" and
    lo: "hextable ! unat (v AND 0x0f) = hextable ! unat (v' AND 0x0f)" and
    rest: "EncodeToString vs = EncodeToString vs'" by simp_all
  from hi have "unat (drop_bit 4 v) = unat (drop_bit 4 v')"
    by (rule hextable_nth_inj [OF hi_nibble_lt hi_nibble_lt])
  then have e1: "drop_bit 4 v = drop_bit 4 v'" by (simp add: word_unat_eq_iff)
  from lo have "unat (v AND 0x0f) = unat (v' AND 0x0f)"
    by (rule hextable_nth_inj [OF lo_nibble_lt lo_nibble_lt])
  then have e2: "v AND 0x0f = v' AND 0x0f" by (simp add: word_unat_eq_iff)
  from nibbles_inj [OF e1 e2] have "v = v'" .
  with Cons.IH [OF rest] ys show ?case by simp
qed

lemma first_field:
  assumes "no_space a" "no_space b" "a @ CHR '' '' # r = b @ CHR '' '' # s"
  shows "a = b \<and> r = s"
proof -
  have "takeWhile (\<lambda>c. c \<noteq> CHR '' '') (a @ CHR '' '' # r) = a"
    using assms(1) by (auto simp: no_space_def takeWhile_tail)
  moreover have "takeWhile (\<lambda>c. c \<noteq> CHR '' '') (b @ CHR '' '' # s) = b"
    using assms(2) by (auto simp: no_space_def takeWhile_tail)
  ultimately have "a = b" using assms(3) by simp
  with assms(3) show ?thesis by simp
qed

lemma Join_Cons: "Join (a # bs) sep = (if bs = [] then a else a @ sep @ Join bs sep)"
  by (cases bs) simp_all

lemma Join_inj:
  assumes "list_all no_space xs" "list_all no_space ys" "xs \<noteq> []" "ys \<noteq> []"
    "Join xs '' '' = Join ys '' ''"
  shows "xs = ys"
  using assms
proof (induction xs arbitrary: ys)
  case Nil
  then show ?case by simp
next
  case (Cons a as)
  from Cons.prems obtain b bs where ys: "ys = b # bs" by (cases ys) auto
  from Cons.prems ys have a: "no_space a" and b: "no_space b"
    and as: "list_all no_space as" and bs: "list_all no_space bs" by simp_all
  from Cons.prems ys have eq: "Join (a # as) '' '' = Join (b # bs) '' ''" by simp
  show ?case
  proof (cases "as = []")
    case True
    note asE = this
    show ?thesis
    proof (cases "bs = []")
      case True
      with asE eq ys show ?thesis by simp
    next
      case False
      with asE eq have "a = b @ CHR '' '' # Join bs '' ''" by (simp add: Join_Cons)
      with a have False by (simp add: no_space_def)
      then show ?thesis ..
    qed
  next
    case False
    note asN = this
    show ?thesis
    proof (cases "bs = []")
      case True
      with asN eq have "b = a @ CHR '' '' # Join as '' ''" by (simp add: Join_Cons)
      with b have False by (simp add: no_space_def)
      then show ?thesis ..
    next
      case False
      with asN eq have "a @ CHR '' '' # Join as '' '' = b @ CHR '' '' # Join bs '' ''"
        by (simp add: Join_Cons)
      from first_field [OF a b this] have ab: "a = b" and r: "Join as '' '' = Join bs '' ''"
        by simp_all
      from Cons.IH [OF as bs asN False r] ab ys show ?thesis by simp
    qed
  qed
qed

lemma of_char_digit:
  assumes "d < 10"
  shows "(of_char (digit d) :: nat) = 48 + d"
proof -
  from assms have "d = 0 \<or> d = 1 \<or> d = 2 \<or> d = 3 \<or> d = 4 \<or> d = 5 \<or> d = 6
      \<or> d = 7 \<or> d = 8 \<or> d = 9"
    by arith
  then show ?thesis by (elim disjE) (simp_all add: digit_def)
qed

lemma is_digit_digit: "d < 10 \<Longrightarrow> is_digit (digit d)"
  by (simp add: is_digit_def of_char_digit)

lemma digits_value_snoc:
  "d < 10 \<Longrightarrow>
   digits_value acc (xs @ [digit d]) = map_option (\<lambda>v. v * 10 + d) (digits_value acc xs)"
  by (induction xs arbitrary: acc) (simp_all add: is_digit_digit of_char_digit)

lemma digits_value_decimal: "digits_value 0 (decimal n) = Some n"
proof (induction n rule: decimal.induct)
  case (1 n)
  show ?case
  proof (cases "n < 10")
    case True
    then show ?thesis by (subst decimal.simps) (simp add: is_digit_digit of_char_digit)
  next
    case False
    with "1" have "digits_value 0 (decimal (n div 10)) = Some (n div 10)" by simp
    with False show ?thesis
      by (subst decimal.simps) (simp add: digits_value_snoc)
  qed
qed

lemma decimal_Cons: "\<exists>c cs. decimal n = c # cs \<and> is_digit c"
proof (induction n rule: decimal.induct)
  case (1 n)
  show ?case
  proof (cases "n < 10")
    case True
    then show ?thesis by (subst decimal.simps) (simp add: is_digit_digit)
  next
    case False
    with "1" obtain c cs where "decimal (n div 10) = c # cs" "is_digit c" by auto
    with False show ?thesis by (subst decimal.simps) simp
  qed
qed

lemma is_digit_not_sign: "is_digit c \<Longrightarrow> c \<noteq> CHR ''-'' \<and> c \<noteq> CHR ''+''"
  by (auto simp: is_digit_def)

lemma signed_digits_decimal: "signed_digits (decimal n) = Some (int n)"
proof -
  obtain c cs where d: "decimal n = c # cs" "is_digit c" using decimal_Cons by blast
  from d(2) have "c \<noteq> CHR ''-''" "c \<noteq> CHR ''+''" using is_digit_not_sign by blast+
  with d(1) have "signed_digits (decimal n) = map_option int (digits_value 0 (decimal n))"
    by (simp add: signed_digits_def)
  then show ?thesis by (simp add: digits_value_decimal)
qed

lemma signed_digits_Itoa: "signed_digits (Itoa i) = Some i"
proof (cases "i < 0")
  case True
  obtain c cs where d: "decimal (nat (- i)) = c # cs" using decimal_Cons by blast
  have "digits_value 0 (decimal (nat (- i))) = Some (nat (- i))" by (rule digits_value_decimal)
  with True d show ?thesis by (simp add: Itoa_def signed_digits_def)
next
  case False
  then show ?thesis by (simp add: Itoa_def signed_digits_decimal)
qed

lemma Atoi_Itoa: "- (2 ^ 63) \<le> i \<Longrightarrow> i < 2 ^ 63 \<Longrightarrow> Atoi (Itoa i) = (i, True)"
  by (simp add: Atoi_def signed_digits_Itoa)

section \<open>Fingerprinting: sensitivity\<close>

text \<open>
  C2, as stated: any two different command specifications have different fingerprints
  (but for a collision of the digest). The fingerprint is computed from the arguments
  joined by one space, so two specifications with the same joined string have the same
  fingerprint whatever the digest does: the one argument \<open>a b\<close> and the two arguments
  \<open>a\<close>, \<open>b\<close>.
\<close>

theorem fingerprint_join_collision:
  "[''ls'', ''a b''] \<noteq> [''ls'', ''a'', ''b''] \<and>
   (\<forall>md5. GenerateCommandHash md5 [''ls'', ''a b'']
          = GenerateCommandHash md5 [''ls'', ''a'', ''b''])"
  by (simp add: GenerateCommandHash_def)

text \<open>
  C2, amended: the fingerprint tells two command specifications apart exactly as far as
  their arguments joined by single spaces do. Specifications with the same joined
  string have the same fingerprint, whatever the digest; specifications whose joined
  strings get different digests (they differ, and the digest does not collide on them)
  have different fingerprints; and two different non-empty specifications whose
  arguments hold no space character have different joined strings.
\<close>

theorem fingerprint_sensitivity_of_joined_strings:
  "(Join c1 '' '' = Join c2 '' '' \<longrightarrow>
      GenerateCommandHash md5 c1 = GenerateCommandHash md5 c2)
   \<and> (md5 (Join c1 '' '') \<noteq> md5 (Join c2 '' '') \<longrightarrow>
        GenerateCommandHash md5 c1 \<noteq> GenerateCommandHash md5 c2)
   \<and> (c1 \<noteq> c2 \<and> c1 \<noteq> [] \<and> c2 \<noteq> [] \<and> list_all no_space c1 \<and> list_all no_space c2 \<longrightarrow>
        Join c1 '' '' \<noteq> Join c2 '' '')"
proof (intro conjI impI)
  assume "Join c1 '' '' = Join c2 '' ''"
  then show "GenerateCommandHash md5 c1 = GenerateCommandHash md5 c2"
    by (simp add: GenerateCommandHash_def)
next
  assume d: "md5 (Join c1 '' '') \<noteq> md5 (Join c2 '' '')"
  show "GenerateCommandHash md5 c1 \<noteq> GenerateCommandHash md5 c2"
  proof
    assume "GenerateCommandHash md5 c1 = GenerateCommandHash md5 c2"
    then have "md5 (Join c1 '' '') = md5 (Join c2 '' '')"
      unfolding GenerateCommandHash_def by (rule EncodeToString_inj)
    with d show False by simp
  qed
next
  assume h: "c1 \<noteq> c2 \<and> c1 \<noteq> [] \<and> c2 \<noteq> [] \<and> list_all no_space c1 \<and> list_all no_space c2"
  show "Join c1 '' '' \<noteq> Join c2 '' ''"
  proof
    assume "Join c1 '' '' = Join c2 '' ''"
    with h have "c1 = c2" by (intro Join_inj) simp_all
    with h show False by simp
  qed
qed

theorem fingerprint_sensitivity_of_joined_strings_witness:
  "GenerateCommandHash (\<lambda>s. map of_char s) [''echo'', ''a b'']
     \<noteq> GenerateCommandHash (\<lambda>s. map of_char s) [''echo'', ''a c'']
   \<and> GenerateCommandHash (\<lambda>s. map of_char s) [''echo'', ''a b'']
       = GenerateCommandHash (\<lambda>s. map of_char s) [''echo'', ''a'', ''b'']
   \<and> Join [''ls'', ''-l''] '' '' \<noteq> Join [''ls'', ''-a''] '' ''"
  using fingerprint_sensitivity_of_joined_strings
      [of "[''echo'', ''a b'']" "[''echo'', ''a c'']" "\<lambda>s. map of_char s"]
    fingerprint_sensitivity_of_joined_strings
      [of "[''echo'', ''a b'']" "[''echo'', ''a'', ''b'']" "\<lambda>s. map of_char s"]
    fingerprint_sensitivity_of_joined_strings
      [of "[''ls'', ''-l'']" "[''ls'', ''-a'']" "\<lambda>s. map of_char s"]
  by (simp add: no_space_def)

section \<open>Cache Store: validity\<close>

text \<open>
  C8, as stated: when the blob is there and its metadata can be read, the check
  returns true exactly when the current time minus the modification time is at most
  the timeout. The code compares the \<open>float64\<close> that \<open>Seconds()\<close> gives for a
  saturating duration. A blob modified \<open>2 ^ 24\<close> seconds and one nanosecond ago is
  valid under a timeout of \<open>2 ^ 24\<close> seconds, the nanosecond being lost in the rounding;
  and a blob modified \<open>2 * 10 ^ 10\<close> seconds ago is valid under a timeout of \<open>10 ^ 10\<close>
  seconds, the duration being cut at its upper bound of about \<open>9.2 * 10 ^ 9\<close> seconds.
\<close>

theorem IsValid_beyond_timeout:
  "IsValid (world0\<lparr>files := [''/tmp/ab.data'' \<mapsto> \<lparr>content = [], mtime = 0\<rparr>],
                   now := 2 ^ 24 * second + 1\<rparr>)
           (NewCommandCache digest0 world0 [''date''] (2 ^ 24))
   \<and> \<not> rat_of_int (2 ^ 24 * second + 1 - 0) / 10 ^ 9 \<le> 2 ^ 24
   \<and> IsValid (world0\<lparr>files := [''/tmp/ab.data'' \<mapsto> \<lparr>content = [], mtime = 0\<rparr>],
                     now := 2 * 10 ^ 19\<rparr>)
             (NewCommandCache digest0 world0 [''date''] (10 ^ 10))
   \<and> \<not> rat_of_int (2 * 10 ^ 19 - 0) / 10 ^ 9 \<le> 10 ^ 10"
proof -
  have a: "Seconds (Sub 16777216000000001 0) \<le> 16777216" by code_simp
  have b: "Seconds (Sub 20000000000000000000 0) \<le> 10000000000" by code_simp
  from a b show ?thesis
    by (simp add: IsValid_def Stat_def fault_def NewCommandCache_def Let_def hash0
          getCacheDir_def filepath_Join_def world0_def second_def)
qed

text \<open>
  C8, amended: the check returns false when there is no blob or its metadata cannot be
  read; otherwise it returns true exactly when the time since the modification, cut
  to the range of a duration and turned into seconds by \<open>Seconds()\<close>, is at most the
  timeout. For an age within the range of a duration that is the comparison of the
  age with the timeout up to \<open>1 / 2 ^ 19\<close> of a second: the check returns true when
  the age is below the timeout by that much, and false when the age is above the
  timeout by more than that. For an age above the range it is the comparison of the
  upper bound of a duration with the timeout.
\<close>

theorem IsValid_is_rounded_age_within_timeout:
  "(IsValid w cc \<longleftrightarrow>
      (\<exists>f. files w (OutputCache cc) = Some f \<and> \<not> fault w OpStat (OutputCache cc)
           \<and> Seconds (Sub (now w) (mtime f)) \<le> CacheTimeout cc))
   \<and> (\<forall>f. files w (OutputCache cc) = Some f \<and> \<not> fault w OpStat (OutputCache cc)
           \<and> minDuration \<le> now w - mtime f \<and> now w - mtime f \<le> maxDuration \<longrightarrow>
         (rat_of_int (now w - mtime f) / 10 ^ 9 + 1 / 2 ^ 19 \<le> CacheTimeout cc
            \<longrightarrow> IsValid w cc)
         \<and> (IsValid w cc
              \<longrightarrow> rat_of_int (now w - mtime f) / 10 ^ 9 \<le> CacheTimeout cc + 1 / 2 ^ 19))
   \<and> (\<forall>f. files w (OutputCache cc) = Some f \<and> \<not> fault w OpStat (OutputCache cc)
           \<and> maxDuration < now w - mtime f \<longrightarrow>
         (IsValid w cc \<longleftrightarrow> Seconds maxDuration \<le> CacheTimeout cc))"
proof (intro conjI allI impI)
  show "IsValid w cc \<longleftrightarrow>
      (\<exists>f. files w (OutputCache cc) = Some f \<and> \<not> fault w OpStat (OutputCache cc)
           \<and> Seconds (Sub (now w) (mtime f)) \<le> CacheTimeout cc)"
    by (auto simp: IsValid_def Stat_def split: option.splits)
next
  fix f
  assume h: "files w (OutputCache cc) = Some f \<and> \<not> fault w OpStat (OutputCache cc)
             \<and> minDuration \<le> now w - mtime f \<and> now w - mtime f \<le> maxDuration"
  assume t: "rat_of_int (now w - mtime f) / 10 ^ 9 + 1 / 2 ^ 19 \<le> CacheTimeout cc"
  from h have s: "Sub (now w) (mtime f) = now w - mtime f" by (simp add: Sub_exact)
  from h Seconds_err [of "now w - mtime f"]
  have "\<bar>Seconds (now w - mtime f) - rat_of_int (now w - mtime f) / 10 ^ 9\<bar> \<le> 1 / 2 ^ 19"
    by simp
  with t have "Seconds (now w - mtime f) \<le> CacheTimeout cc" by linarith
  with h s show "IsValid w cc" by (simp add: IsValid_def Stat_def)
next
  fix f
  assume h: "files w (OutputCache cc) = Some f \<and> \<not> fault w OpStat (OutputCache cc)
             \<and> minDuration \<le> now w - mtime f \<and> now w - mtime f \<le> maxDuration"
  assume v: "IsValid w cc"
  from h have s: "Sub (now w) (mtime f) = now w - mtime f" by (simp add: Sub_exact)
  from h Seconds_err [of "now w - mtime f"]
  have e: "\<bar>Seconds (now w - mtime f) - rat_of_int (now w - mtime f) / 10 ^ 9\<bar> \<le> 1 / 2 ^ 19"
    by simp
  from v h s have "Seconds (now w - mtime f) \<le> CacheTimeout cc"
    by (simp add: IsValid_def Stat_def)
  with e show "rat_of_int (now w - mtime f) / 10 ^ 9 \<le> CacheTimeout cc + 1 / 2 ^ 19"
    by linarith
next
  fix f
  assume h: "files w (OutputCache cc) = Some f \<and> \<not> fault w OpStat (OutputCache cc)
             \<and> maxDuration < now w - mtime f"
  then have "Sub (now w) (mtime f) = maxDuration" by (simp add: Sub_def)
  with h show "IsValid w cc \<longleftrightarrow> Seconds maxDuration \<le> CacheTimeout cc"
    by (simp add: IsValid_def Stat_def)
qed

theorem IsValid_is_rounded_age_within_timeout_witness:
  "IsValid (world0\<lparr>files := [''/tmp/ab.data'' \<mapsto> \<lparr>content = [], mtime = 0\<rparr>],
                   now := 5 * second\<rparr>)
           (NewCommandCache digest0 world0 [''date''] 20)
   \<and> \<not> IsValid (world0\<lparr>files := [''/tmp/ab.data'' \<mapsto> \<lparr>content = [], mtime = 0\<rparr>],
                       now := 21 * second\<rparr>)
               (NewCommandCache digest0 world0 [''date''] 20)
   \<and> \<not> IsValid (world0\<lparr>files := [''/tmp/ab.data'' \<mapsto> \<lparr>content = [], mtime = 0\<rparr>],
                       now := 2 * 10 ^ 19\<rparr>)
               (NewCommandCache digest0 world0 [''date''] 20)
   \<and> \<not> IsValid world0 (NewCommandCache digest0 world0 [''date''] 20)"
proof -
  let ?cc = "NewCommandCache digest0 world0 [''date''] 20"
  let ?w = "\<lambda>t. world0\<lparr>files := [''/tmp/ab.data'' \<mapsto> \<lparr>content = [], mtime = 0\<rparr>], now := t\<rparr>"
  have p: "OutputCache ?cc = ''/tmp/ab.data''" "CacheTimeout ?cc = 20"
    by (simp_all add: NewCommandCache_def Let_def hash0 getCacheDir_def filepath_Join_def
          world0_def)
  let ?f = "\<lparr>content = [], mtime = 0\<rparr>"
  have f: "files (?w t) (OutputCache ?cc) = Some ?f" for t by (simp add: p)
  have nf: "\<not> fault (?w t) OpStat (OutputCache ?cc)" for t by (simp add: fault_def world0_def)
  have m: "\<not> Seconds maxDuration \<le> 20" by code_simp
  note r = IsValid_is_rounded_age_within_timeout
  from r [of "?w (5 * second)" ?cc, THEN conjunct2, THEN conjunct1, THEN spec, of ?f]
    f [of "5 * second"] nf [of "5 * second"]
  have v1: "IsValid (?w (5 * second)) ?cc"
    by (simp add: p(2) second_def minDuration_def maxDuration_def)
  from r [of "?w (21 * second)" ?cc, THEN conjunct2, THEN conjunct1, THEN spec, of ?f]
    f [of "21 * second"] nf [of "21 * second"]
  have v2: "\<not> IsValid (?w (21 * second)) ?cc"
    by (auto simp: p(2) second_def minDuration_def maxDuration_def)
  from r [of "?w (2 * 10 ^ 19)" ?cc, THEN conjunct2, THEN conjunct2, THEN spec, of ?f]
    f [of "2 * 10 ^ 19"] nf [of "2 * 10 ^ 19"] m
  have v3: "\<not> IsValid (?w (2 * 10 ^ 19)) ?cc"
    by (simp add: p(2) maxDuration_def)
  from r [of world0 ?cc, THEN conjunct1]
  have v4: "\<not> IsValid world0 ?cc"
    by (simp add: p(1) world0_def)
  from v1 v2 v3 v4 show ?thesis by simp
qed

section \<open>Mutual-Exclusion Guard: the wait\<close>

lemma lock_pid_SomeD:
  assumes "lock_pid w p = Some n"
  shows "Stat w p \<noteq> Inl ENOENT" and "getPidFromFile w p = n" and "n \<noteq> - 1"
  using assms
  by (auto simp: lock_pid_def Stat_def getPidFromFile_def ReadFile_def
           split: option.splits if_splits prod.splits)

text \<open>No process is ever found not to be running: \<open>os.FindProcess\<close> does not fail
  and \<open>Process.Signal\<close> never returns \<open>syscall.ESRCH\<close>.\<close>

lemma isProcessRunning_always: "isProcessRunning w pid"
  by (simp add: isProcessRunning_def FindProcess_def Signal0_def errors_Is_def
      split: option.splits kill_errno.splits)

lemma waitLoop_locked:
  assumes "lock_pid w p = Some m" "i < n"
  shows "waitLoop w p i n = waitLoop (Sleep1 w) p (i + 1) n"
  using lock_pid_SomeD [OF assms(1)] isProcessRunning_always [of w m] assms(2)
  by (subst waitLoop.simps) simp

lemma waitLoop_live:
  assumes "lock_live w p" "i < n"
  shows "waitLoop w p i n = waitLoop (Sleep1 w) p (i + 1) n"
proof -
  from assms(1) obtain m where m: "lock_pid w p = Some m"
    by (auto simp: lock_live_def split: option.splits)
  from waitLoop_locked [OF m assms(2)] show ?thesis .
qed

text \<open>A stale lock is waited for like a live one.\<close>

lemma waitLoop_stale:
  assumes "lock_stale w p" "i < n"
  shows "waitLoop w p i n = waitLoop (Sleep1 w) p (i + 1) n"
proof -
  from assms(1) obtain m where m: "lock_pid w p = Some m"
    by (auto simp: lock_stale_def split: option.splits)
  from waitLoop_locked [OF m assms(2)] show ?thesis .
qed

lemma waitLoop_absent:
  assumes "files w p = None" "\<not> fault w OpStat p" "i < n"
  shows "waitLoop w p i n = (True, w)"
  using assms by (subst waitLoop.simps) (simp add: Stat_def)

lemma waitLoop_held:
  "held_live k w p \<Longrightarrow> waitLoop w p i (i + int k) = (False, (Sleep1 ^^ k) w)"
proof (induction k arbitrary: w i)
  case 0
  then show ?case by (subst waitLoop.simps) simp
next
  case (Suc k)
  from Suc.prems have l: "lock_live w p" and h: "held_live k (Sleep1 w) p" by simp_all
  have e: "i + int (Suc k) = (i + 1) + int k" by simp
  have "waitLoop w p i (i + int (Suc k)) = waitLoop (Sleep1 w) p (i + 1) (i + int (Suc k))"
    by (rule waitLoop_live [OF l]) simp
  also have "\<dots> = waitLoop (Sleep1 w) p (i + 1) ((i + 1) + int k)"
    by (simp only: e)
  also have "\<dots> = (False, (Sleep1 ^^ k) (Sleep1 w))"
    by (rule Suc.IH [OF h])
  finally show ?case by (simp add: funpow_swap1)
qed

lemma now_apply_ext: "now (apply_ext a w) = now w"
  by (cases a) (simp_all add: apply_ext_def)

lemma now_Sleep1: "now (Sleep1 w) = now w + second"
  by (simp add: Sleep1_def Let_def now_apply_ext split: list.splits)

lemma now_Remove: "now (Remove w p) = now w"
  by (simp add: Remove_def)

lemma now_Eprint: "now (Eprint w s) = now w"
  by (simp add: Eprint_def)

lemma now_Create: "Create w p = Some w' \<Longrightarrow> now w' = now w"
  by (auto simp: Create_def split: if_splits)

lemma now_WriteString: "WriteString w p s = Some w' \<Longrightarrow> now w' = now w"
  by (auto simp: WriteString_def split: if_splits option.splits)

lemma now_waitLoop:
  "now w \<le> now (snd (waitLoop w p i n))
   \<and> now (snd (waitLoop w p i n)) \<le> now w + max 0 (n - i) * second"
proof (induction w p i n rule: waitLoop.induct)
  case (1 w pidFile i waitTimeSec)
  have s: "0 \<le> second" by (simp add: second_def)
  show ?case
  proof (cases "i < waitTimeSec \<and> Stat w pidFile \<noteq> Inl ENOENT
                \<and> getPidFromFile w pidFile \<noteq> - 1
                \<and> isProcessRunning w (getPidFromFile w pidFile)")
    case True
    then have step: "waitLoop w pidFile i waitTimeSec
                     = waitLoop (Sleep1 w) pidFile (i + 1) waitTimeSec"
      by (subst waitLoop.simps) simp
    from True "1.IH" [OF _ _ refl]
    have ih: "now (Sleep1 w) \<le> now (snd (waitLoop (Sleep1 w) pidFile (i + 1) waitTimeSec))
       \<and> now (snd (waitLoop (Sleep1 w) pidFile (i + 1) waitTimeSec))
           \<le> now (Sleep1 w) + max 0 (waitTimeSec - (i + 1)) * second"
      by simp
    from True have "max 0 (waitTimeSec - i) = max 0 (waitTimeSec - (i + 1)) + 1" by simp
    with ih s step show ?thesis by (simp add: algebra_simps now_Sleep1)
  next
    case False
    then have "now (snd (waitLoop w pidFile i waitTimeSec)) = now w"
      by (subst waitLoop.simps) (auto simp: Let_def now_Remove)
    with s show ?thesis by simp
  qed
qed

lemma now_CreatePidFile:
  "now w \<le> now (snd (CreatePidFile md5 w command))
   \<and> now (snd (CreatePidFile md5 w command)) \<le> now w + maxWaitPrevSec * second"
proof -
  let ?p = "pidFile_of md5 w command"
  obtain b w1 where wl: "waitLoop w ?p 0 maxWaitPrevSec = (b, w1)" by (cases "waitLoop w ?p 0 maxWaitPrevSec")
  from now_waitLoop [of w ?p 0 maxWaitPrevSec] wl
  have n1: "now w \<le> now w1 \<and> now w1 \<le> now w + maxWaitPrevSec * second"
    by (simp add: maxWaitPrevSec_def)
  have "now (snd (CreatePidFile md5 w command)) = now w1"
    using wl
    by (auto simp: CreatePidFile_def Let_def maxRandSec_def minRandSec_def pidFile_of_def
          waitForPreviousCommand_def now_Eprint
        split: option.splits bool.splits dest!: now_Create now_WriteString)
  with n1 show ?thesis by simp
qed

lemma CreatePidFile_held:
  assumes "held_live 5 w (pidFile_of md5 w command)"
  shows "CreatePidFile md5 w command = ([], (Sleep1 ^^ 5) w)"
proof -
  from waitLoop_held [OF assms, of 0]
  have "waitLoop w (pidFile_of md5 w command) 0 5 = (False, (Sleep1 ^^ 5) w)" by simp
  then show ?thesis
    by (simp add: CreatePidFile_def Let_def maxRandSec_def minRandSec_def pidFile_of_def
          waitForPreviousCommand_def maxWaitPrevSec_def)
qed

text \<open>
  C10: acquiring the guard takes at most \<open>maxWaitPrevSec = 5\<close> sleeps of one second,
  whatever the caller passes to \<open>RunCached\<close>; and when the lock is live at each of the
  five looks, the invocation gives up: it returns 2 after the message of the timeout.
\<close>

theorem guard_wait_is_bounded:
  "now w \<le> now (snd (CreatePidFile md5 w command))
   \<and> now (snd (CreatePidFile md5 w command)) \<le> now w + maxWaitPrevSec * second
   \<and> maxWaitPrevSec = 5
   \<and> (held_live 5 w (pidFile_of md5 w command) \<longrightarrow>
        RunCached md5 w command cacheTimeout cacheOnError cacheOnAbort
          = (Return 2,
             Eprint ((Sleep1 ^^ 5) w)
               (''Timeout waiting for previous command to finish'' @ [CHR 0x0A])))"
  using now_CreatePidFile [of w md5 command]
  by (simp add: maxWaitPrevSec_def RunCached_def CreatePidFile_held)

theorem guard_wait_is_bounded_witness:
  "held_live 5
     (world0\<lparr>files := [''/tmp/ab.pid'' \<mapsto> \<lparr>content = ''999'', mtime = 0\<rparr>],
             kill0 := (\<lambda>n. None)\<rparr>) ''/tmp/ab.pid''
   \<and> RunCached digest0
         (world0\<lparr>files := [''/tmp/ab.pid'' \<mapsto> \<lparr>content = ''999'', mtime = 0\<rparr>],
                 kill0 := (\<lambda>n. None)\<rparr>) [''date''] 20 False False
       = (Return 2,
          world0\<lparr>files := [''/tmp/ab.pid'' \<mapsto> \<lparr>content = ''999'', mtime = 0\<rparr>],
                 kill0 := (\<lambda>n. None),
                 now := 5 * second,
                 stderr := ''Timeout waiting for previous command to finish'' @ [CHR 0x0A]\<rparr>)"
proof -
  let ?w = "world0\<lparr>files := [''/tmp/ab.pid'' \<mapsto> \<lparr>content = ''999'', mtime = 0\<rparr>],
                   kill0 := (\<lambda>n. None)\<rparr>"
  have p: "pidFile_of digest0 ?w [''date''] = ''/tmp/ab.pid''"
    by (simp add: pidFile_of_def hash0 getCacheDir_def filepath_Join_def world0_def)
  have h: "held_live 5 ?w ''/tmp/ab.pid''"
    by (simp add: eval_nat_numeral eval_defs lock_pid_def lock_live_def)
  have s: "(Sleep1 ^^ 5) ?w = ?w\<lparr>now := 5 * second\<rparr>"
    by (simp add: eval_nat_numeral Sleep1_def world0_def second_def)
  from p h guard_wait_is_bounded [of ?w digest0 "[''date'']" 20 False False]
  have r: "RunCached digest0 ?w [''date''] 20 False False
             = (Return 2,
                Eprint ((Sleep1 ^^ 5) ?w)
                  (''Timeout waiting for previous command to finish'' @ [CHR 0x0A]))"
    by simp
  show ?thesis unfolding r s using h by (simp add: Eprint_def world0_def)
qed

section \<open>Mutual-Exclusion Guard: a stale lock\<close>

text \<open>
  C3 says that a lock file whose recorded process does not exist is removed and does
  not keep the invocation from going on. The code means to remove it (the branch
  "Stale pid file"), when \<open>isProcessRunning\<close> answers false; that needs
  \<open>Process.Signal\<close> to return \<open>syscall.ESRCH\<close>, which it never does, so no lock is ever
  found stale. Here the lock file of \<open>date\<close> records process 999, and there is no
  such process: the invocation sleeps for the whole five seconds, writes the message
  of the timeout, returns 2 without having printed or started anything, and leaves
  the lock file, as stale as it was.
\<close>

theorem stale_lock_is_waited_for:
  "lock_stale
     (world0\<lparr>files := [pidFile_of md5 world0 [''date''] \<mapsto> \<lparr>content = ''999'', mtime = 0\<rparr>]\<rparr>)
     (pidFile_of md5 world0 [''date''])
   \<and> RunCached md5
        (world0\<lparr>files := [pidFile_of md5 world0 [''date''] \<mapsto> \<lparr>content = ''999'', mtime = 0\<rparr>]\<rparr>)
        [''date''] 20 False False
      = (Return 2,
         world0\<lparr>files := [pidFile_of md5 world0 [''date''] \<mapsto> \<lparr>content = ''999'', mtime = 0\<rparr>],
                now := 5 * second,
                stderr := ''Timeout waiting for previous command to finish'' @ [CHR 0x0A]\<rparr>)
   \<and> lock_stale
       (world0\<lparr>files := [pidFile_of md5 world0 [''date''] \<mapsto> \<lparr>content = ''999'', mtime = 0\<rparr>],
               now := 5 * second,
               stderr := ''Timeout waiting for previous command to finish'' @ [CHR 0x0A]\<rparr>)
       (pidFile_of md5 world0 [''date''])"
  by (simp add: eval_defs lock_pid_def lock_stale_def)

section \<open>Orchestrator: a failed command\<close>

lemma Wait_ExitError_range:
  assumes "Wait s = Some (ExitError c)"
  shows "c \<noteq> 0 \<and> - 1 \<le> c \<and> c \<le> 255"
proof (cases s)
  case (Exited b)
  have "uint b < 256" using uint_bounded [of b] by simp
  moreover have "0 \<le> uint b" by simp
  moreover from assms Exited have "b \<noteq> 0" "c = uint b"
    by (auto simp: Wait_def split: if_splits)
  moreover from \<open>b \<noteq> 0\<close> have "uint b \<noteq> 0" by (simp add: uint_0_iff)
  ultimately show ?thesis by arith
next
  case Signaled
  with assms show ?thesis by (simp add: Wait_def)
next
  case WaitFailed
  with assms show ?thesis by (simp add: Wait_def)
qed

lemma Atoi_Itoa_exit:
  assumes "Wait s = Some (ExitError c)"
  shows "fst (Atoi (Itoa c)) = c"
proof -
  from Wait_ExitError_range [OF assms] have "- (2 ^ 63) \<le> c" "c < 2 ^ 63" by simp_all
  then show ?thesis by (simp add: Atoi_Itoa)
qed

lemma CreatePidFile_acquires:
  assumes "faults w = []" "files w (pidFile_of md5 w command) = None"
  shows "CreatePidFile md5 w command
           = (pidFile_of md5 w command,
              w\<lparr>files := (files w)(pidFile_of md5 w command \<mapsto>
                     \<lparr>content = Itoa (Getpid w), mtime = now w\<rparr>)\<rparr>)"
proof -
  let ?p = "pidFile_of md5 w command"
  from assms have "waitLoop w ?p 0 5 = (True, w)"
    by (intro waitLoop_absent) (simp_all add: fault_def)
  moreover have "?p \<noteq> []" by (simp add: pidFile_of_def filepath_Join_def)
  ultimately show ?thesis using assms(1)
    by (simp add: CreatePidFile_def Let_def maxRandSec_def minRandSec_def
          waitForPreviousCommand_def maxWaitPrevSec_def Create_def WriteString_def fault_def
          pidFile_of_def [symmetric])
qed

lemma ExecuteCommand_failing_child:
  assumes "faults w = []"
    and "ConstructBashCommand command = Inr line"
    and "respond w [''bash'', ''-i'', ''-c'', line] (length (spawned w)) = Ran r"
    and "Wait (status r) = Some (ExitError c)"
    and "OutputCache cache \<noteq> ExitFile cache"
  shows "ExecuteCommand w command cache
           = (Return c,
              w\<lparr>files := (files w)
                     (OutputCache cache \<mapsto>
                        \<lparr>content = copied r,
                         mtime = (if copied r = [] then now w else now w + dur r)\<rparr>,
                      ExitFile cache \<mapsto> \<lparr>content = Itoa c, mtime = now w + dur r\<rparr>),
                 now := now w + dur r,
                 stdout := stdout w @ copied r @ (if cut r = None then [] else copy_error),
                 stderr := stderr w @ err r,
                 spawned := spawned w @ [[''bash'', ''-i'', ''-c'', line]]\<rparr>)"
  using assms
  by (simp add: ExecuteCommand_def Let_def fault_def Create_def Start_def Eprint_def Print_def
        CopyOutput_def WriteString_def)

lemma spawned_ExecuteCommand:
  assumes "faults w = []" and "ConstructBashCommand command = Inr line"
  shows "spawned (snd (ExecuteCommand w command cache))
           = spawned w @ [[''bash'', ''-i'', ''-c'', line]]"
  using assms
  by (simp add: ExecuteCommand_def Let_def fault_def Create_def Start_def Eprint_def Print_def
        CopyOutput_def WriteString_def
      split: spawn_result.splits option.splits wait_error.splits)


lemma cache_paths:
  "OutputCache (NewCommandCache md5 w command t) \<noteq> ExitFile (NewCommandCache md5 w command t)"
  "OutputCache (NewCommandCache md5 w command t) \<noteq> CmdFile (NewCommandCache md5 w command t)"
  "ExitFile (NewCommandCache md5 w command t) \<noteq> CmdFile (NewCommandCache md5 w command t)"
  "OutputCache (NewCommandCache md5 w command t) \<noteq> pidFile_of md5 w command"
  "ExitFile (NewCommandCache md5 w command t) \<noteq> pidFile_of md5 w command"
  "CmdFile (NewCommandCache md5 w command t) \<noteq> pidFile_of md5 w command"
  by (simp_all add: NewCommandCache_def pidFile_of_def filepath_Join_def Let_def)

lemma NewCommandCache_cong:
  "TempDir w' = TempDir w \<Longrightarrow> NewCommandCache md5 w' command t = NewCommandCache md5 w command t"
  by (simp add: NewCommandCache_def getCacheDir_def)

lemma pidFile_of_cong:
  "TempDir w' = TempDir w \<Longrightarrow> pidFile_of md5 w' command = pidFile_of md5 w command"
  by (simp add: pidFile_of_def getCacheDir_def)

lemma IsValid_cong:
  assumes "files w' (OutputCache cc) = files w (OutputCache cc)" "faults w' = faults w"
    "now w' = now w"
  shows "IsValid w' cc = IsValid w cc"
  using assms by (simp add: IsValid_def Stat_def fault_def split: option.splits)

lemma RunCached_failing_child:
  assumes "faults w = []"
    and "files w (pidFile_of md5 w command) = None"
    and "\<not> IsValid w (NewCommandCache md5 w command t)"
    and "ConstructBashCommand command = Inr line"
    and "respond w [''bash'', ''-i'', ''-c'', line] (length (spawned w)) = Ran r"
    and "Wait (status r) = Some (ExitError c)"
  shows "RunCached md5 w command t coe a
           = (Return c,
              w\<lparr>files := (files w)
                     (OutputCache (NewCommandCache md5 w command t) :=
                        (if coe then
                           Some \<lparr>content = copied r,
                                 mtime = (if copied r = [] then now w else now w + dur r)\<rparr>
                         else None),
                      ExitFile (NewCommandCache md5 w command t) \<mapsto>
                        \<lparr>content = Itoa c, mtime = now w + dur r\<rparr>),
                 now := now w + dur r,
                 stdout := stdout w @ (if verbose w then ''Executing command'' @ [CHR 0x0A] else [])
                             @ copied r @ (if cut r = None then [] else copy_error),
                 stderr := stderr w @ err r,
                 spawned := spawned w @ [[''bash'', ''-i'', ''-c'', line]]\<rparr>)"
proof -
  let ?p = "pidFile_of md5 w command"
  let ?cc = "NewCommandCache md5 w command t"
  let ?wL = "w\<lparr>files := (files w)(?p \<mapsto> \<lparr>content = Itoa (Getpid w), mtime = now w\<rparr>)\<rparr>"
  note paths = cache_paths [of md5 w command t]
  have acq: "CreatePidFile md5 w command = (?p, ?wL)"
    by (rule CreatePidFile_acquires [OF assms(1,2)])
  have pne: "?p \<noteq> []" by (simp add: pidFile_of_def filepath_Join_def)
  have cc: "NewCommandCache md5 ?wL command t = ?cc" by (rule NewCommandCache_cong) simp
  have inv: "\<not> IsValid ?wL ?cc"
    using assms(3) paths IsValid_cong [of ?wL ?cc w] by simp
  have c0: "c \<noteq> 0" using Wait_ExitError_range [OF assms(6)] by simp
  have ex: "ExecuteCommand w' command ?cc
              = (Return c,
                 w'\<lparr>files := (files w')
                        (OutputCache ?cc \<mapsto>
                           \<lparr>content = copied r,
                            mtime = (if copied r = [] then now w' else now w' + dur r)\<rparr>,
                         ExitFile ?cc \<mapsto> \<lparr>content = Itoa c, mtime = now w' + dur r\<rparr>),
                    now := now w' + dur r,
                    stdout := stdout w' @ copied r @ (if cut r = None then [] else copy_error),
                    stderr := stderr w' @ err r,
                    spawned := spawned w' @ [[''bash'', ''-i'', ''-c'', line]]\<rparr>)"
    if "faults w' = []" "respond w' = respond w" "spawned w' = spawned w" for w'
    using that assms(5) paths
      ExecuteCommand_failing_child [of w' command line r c ?cc, OF _ assms(4) _ assms(6)]
    by simp
  have f1: "(files w)(OutputCache ?cc \<mapsto> x, ExitFile ?cc \<mapsto> y, ?p := None)
              = (files w)(OutputCache ?cc \<mapsto> x, ExitFile ?cc \<mapsto> y)" for x y
    using assms(2) paths by (auto intro!: ext)
  have f2: "(files w)(ExitFile ?cc \<mapsto> y, OutputCache ?cc := None, ?p := None)
              = (files w)(OutputCache ?cc := None, ExitFile ?cc \<mapsto> y)" for y
    using assms(2) paths by (auto intro!: ext)
  show ?thesis
    unfolding RunCached_def acq
    using pne inv c0 paths assms(1)
    by (simp add: cc ex Let_def Invalidate_def Remove_def fault_def Print_def f1 f2)
qed


lemma RunCached_replays:
  assumes "faults w = []"
    and "files w (pidFile_of md5 w command) = None"
    and "IsValid w (NewCommandCache md5 w command t)"
    and "files w (OutputCache (NewCommandCache md5 w command t)) = Some f"
  shows "RunCached md5 w command t coe a
           = (Return (fst (Atoi (readFileOrDefault w
                         (ExitFile (NewCommandCache md5 w command t)) ''0''))),
              w\<lparr>stdout := stdout w
                   @ (if verbose w then ''Returning cached result'' @ [CHR 0x0A] else [])
                   @ content f\<rparr>)"
proof -
  let ?p = "pidFile_of md5 w command"
  let ?cc = "NewCommandCache md5 w command t"
  let ?wL = "w\<lparr>files := (files w)(?p \<mapsto> \<lparr>content = Itoa (Getpid w), mtime = now w\<rparr>)\<rparr>"
  note paths = cache_paths [of md5 w command t]
  have acq: "CreatePidFile md5 w command = (?p, ?wL)"
    by (rule CreatePidFile_acquires [OF assms(1,2)])
  have pne: "?p \<noteq> []" by (simp add: pidFile_of_def filepath_Join_def)
  have cc: "NewCommandCache md5 ?wL command t = ?cc" by (rule NewCommandCache_cong) simp
  have val: "IsValid ?wL ?cc"
    using assms(3) paths IsValid_cong [of ?wL ?cc w] by simp
  have f0: "(files w)(?p := None) = files w"
    using assms(2) by (auto intro!: ext)
  show ?thesis
    unfolding RunCached_def acq
    using pne val paths assms(1,4)
    by (simp add: cc Let_def sendTextToStdout_def Open_def readFileOrDefault_def ReadFile_def
          Remove_def fault_def Print_def f0)
qed

lemma RunCached_executes:
  assumes "faults w = []"
    and "files w (pidFile_of md5 w command) = None"
    and "\<not> IsValid w (NewCommandCache md5 w command t)"
    and "ConstructBashCommand command = Inr line"
  shows "spawned (snd (RunCached md5 w command t coe a))
           = spawned w @ [[''bash'', ''-i'', ''-c'', line]]"
proof -
  let ?p = "pidFile_of md5 w command"
  let ?cc = "NewCommandCache md5 w command t"
  let ?wL = "w\<lparr>files := (files w)(?p \<mapsto> \<lparr>content = Itoa (Getpid w), mtime = now w\<rparr>)\<rparr>"
  let ?wV = "if verbose ?wL then Print ?wL (''Executing command'' @ [CHR 0x0A]) else ?wL"
  note paths = cache_paths [of md5 w command t]
  have acq: "CreatePidFile md5 w command = (?p, ?wL)"
    by (rule CreatePidFile_acquires [OF assms(1,2)])
  have pne: "?p \<noteq> []" by (simp add: pidFile_of_def filepath_Join_def)
  have cc: "NewCommandCache md5 ?wL command t = ?cc" by (rule NewCommandCache_cong) simp
  have inv: "\<not> IsValid ?wL ?cc"
    using assms(3) paths IsValid_cong [of ?wL ?cc w] by simp
  obtain res wE where ex: "ExecuteCommand ?wV command ?cc = (res, wE)"
    by (cases "ExecuteCommand ?wV command ?cc")
  have "faults ?wV = []" using assms(1) by (simp add: Print_def)
  from spawned_ExecuteCommand [OF this assms(4), of ?cc] ex
  have sp: "spawned wE = spawned w @ [[''bash'', ''-i'', ''-c'', line]]"
    by (simp add: Print_def split: if_splits)
  have "RunCached md5 w command t coe a
          = (case res of
               OsExit code \<Rightarrow> (OsExit code, wE)
             | Return returnCode \<Rightarrow>
                 (Return returnCode,
                  Remove (if returnCode \<noteq> 0 \<and> \<not> coe then Invalidate wE ?cc else wE) ?p))"
    unfolding RunCached_def acq
    using pne inv ex by (simp add: cc Let_def split: outcome.splits)
  with sp show ?thesis
    by (simp add: Remove_def Invalidate_def split: outcome.splits)
qed

text \<open>
  A command is executed and fails with code \<open>c\<close> (an exit status other than 0, or -1
  for a signal), no system call failing. Without "cache on error" the output blob is
  gone when \<open>RunCached\<close> returns, and a later invocation, at any time, starts the
  command again. With "cache on error" the blob holds what was copied of the output,
  and a later invocation for which the cache is still valid starts nothing, prints the
  blob and returns \<open>c\<close>.
\<close>

lemma failed_child_is_cached_only_on_request:
  assumes "faults w = []"
    and "files w (pidFile_of md5 w command) = None"
    and "\<not> IsValid w (NewCommandCache md5 w command t)"
    and "ConstructBashCommand command = Inr line"
    and "respond w [''bash'', ''-i'', ''-c'', line] (length (spawned w)) = Ran r"
    and "Wait (status r) = Some (ExitError c)"
    and "RunCached md5 w command t cacheOnError a = (res1, w1)"
    and "RunCached md5 (w1\<lparr>now := later\<rparr>) command t cacheOnError a = (res2, w2)"
  shows "res1 = Return c \<and> c \<noteq> 0 \<and>
         (if cacheOnError then
            map_option content (files w1 (OutputCache (NewCommandCache md5 w command t)))
              = Some (copied r)
            \<and> (IsValid (w1\<lparr>now := later\<rparr>) (NewCommandCache md5 w command t) \<longrightarrow>
                 res2 = Return c \<and> spawned w2 = spawned w1
                 \<and> stdout w2 = stdout w1
                      @ (if verbose w then ''Returning cached result'' @ [CHR 0x0A] else [])
                      @ copied r)
          else
            files w1 (OutputCache (NewCommandCache md5 w command t)) = None
            \<and> spawned w2 = spawned w1 @ [[''bash'', ''-i'', ''-c'', line]])"
proof -
  let ?p = "pidFile_of md5 w command"
  let ?cc = "NewCommandCache md5 w command t"
  let ?w' = "w1\<lparr>now := later\<rparr>"
  note paths = cache_paths [of md5 w command t]
  note first = RunCached_failing_child [OF assms(1-6), of cacheOnError a]
  from first assms(7) have r1: "res1 = Return c" by simp
  have c0: "c \<noteq> 0" using Wait_ExitError_range [OF assms(6)] by simp
  from first assms(7) have
    fl: "faults ?w' = []" and td: "TempDir ?w' = TempDir w" and vb: "verbose ?w' = verbose w"
    and fO: "files ?w' (OutputCache ?cc)
             = (if cacheOnError
                then Some \<lparr>content = copied r,
                           mtime = (if copied r = [] then now w else now w + dur r)\<rparr>
                else None)"
    and fE: "files ?w' (ExitFile ?cc) = Some \<lparr>content = Itoa c, mtime = now w + dur r\<rparr>"
    and fp: "files ?w' ?p = None"
    and so: "stdout ?w' = stdout w1" and sp: "spawned ?w' = spawned w1"
    using assms(1,2) paths by auto
  have cc': "NewCommandCache md5 ?w' command t = ?cc" by (rule NewCommandCache_cong [OF td])
  have p': "pidFile_of md5 ?w' command = ?p" by (rule pidFile_of_cong [OF td])
  show ?thesis
  proof (cases cacheOnError)
    case True
    have blob: "map_option content (files w1 (OutputCache ?cc)) = Some (copied r)"
      using fO True by simp
    have replay: "res2 = Return c \<and> spawned w2 = spawned w1
        \<and> stdout w2 = stdout w1
             @ (if verbose w then ''Returning cached result'' @ [CHR 0x0A] else []) @ copied r"
      if v: "IsValid ?w' ?cc"
    proof -
      from fO True have fO': "files ?w' (OutputCache (NewCommandCache md5 ?w' command t))
          = Some \<lparr>content = copied r, mtime = (if copied r = [] then now w else now w + dur r)\<rparr>"
        by (simp add: cc')
      from RunCached_replays [of ?w' md5 command t _ cacheOnError a, OF fl _ _ fO']
        fp v assms(8)
      have "(res2, w2)
              = (Return (fst (Atoi (readFileOrDefault ?w' (ExitFile ?cc) ''0''))),
                 ?w'\<lparr>stdout := stdout ?w'
                      @ (if verbose ?w' then ''Returning cached result'' @ [CHR 0x0A] else [])
                      @ copied r\<rparr>)"
        by (simp add: cc' p')
      moreover have "readFileOrDefault ?w' (ExitFile ?cc) ''0'' = Itoa c"
        using fE fl by (simp add: readFileOrDefault_def ReadFile_def fault_def)
      ultimately show ?thesis
        using Atoi_Itoa_exit [OF assms(6)] vb by (simp add: so sp)
    qed
    from True r1 c0 blob replay show ?thesis by simp
  next
    case False
    have gone: "files w1 (OutputCache ?cc) = None" using fO False by simp
    have "\<not> IsValid ?w' (NewCommandCache md5 ?w' command t)"
      using fO False fl by (simp add: cc' IsValid_def Stat_def fault_def)
    from RunCached_executes [of ?w' md5 command t line cacheOnError a, OF fl _ this assms(4)]
      fp assms(8)
    have "spawned w2 = spawned w1 @ [[''bash'', ''-i'', ''-c'', line]]"
      by (simp add: p' sp)
    with False r1 c0 gone show ?thesis by simp
  qed
qed

section \<open>Orchestrator: what holds of every invocation\<close>

text \<open>No operation changes which system calls fail.\<close>

lemma faults_Sleep1 [simp]: "faults (Sleep1 w) = faults w"
  by (simp add: Sleep1_def Let_def apply_ext_def split: list.splits ext_action.splits)

lemma faults_Remove [simp]: "faults (Remove w p) = faults w"
  by (simp add: Remove_def)

lemma faults_Eprint [simp]: "faults (Eprint w s) = faults w"
  by (simp add: Eprint_def)

lemma faults_Print [simp]: "faults (Print w s) = faults w"
  by (simp add: Print_def)

lemma faults_Create: "Create w p = Some w' \<Longrightarrow> faults w' = faults w"
  by (auto simp: Create_def split: if_splits)

lemma faults_WriteString: "WriteString w p s = Some w' \<Longrightarrow> faults w' = faults w"
  by (auto simp: WriteString_def split: if_splits option.splits)

lemma faults_CopyOutput [simp]: "faults (CopyOutput w p r) = faults w"
  by (auto simp: CopyOutput_def Let_def split: option.splits dest: faults_WriteString)

lemma faults_waitLoop: "faults (snd (waitLoop w p i n)) = faults w"
proof (induction w p i n rule: waitLoop.induct)
  case (1 w pidFile i waitTimeSec)
  show ?case
  proof (cases "i < waitTimeSec \<and> Stat w pidFile \<noteq> Inl ENOENT
                \<and> getPidFromFile w pidFile \<noteq> - 1
                \<and> isProcessRunning w (getPidFromFile w pidFile)")
    case True
    then have "waitLoop w pidFile i waitTimeSec
                 = waitLoop (Sleep1 w) pidFile (i + 1) waitTimeSec"
      by (subst waitLoop.simps) simp
    with True "1.IH" [OF _ _ refl] show ?thesis by simp
  next
    case False
    then show ?thesis by (subst waitLoop.simps) (auto simp: Let_def)
  qed
qed

lemma CreatePidFile_cases:
  "fst (CreatePidFile md5 w command) = [] \<or>
   fst (CreatePidFile md5 w command) = pidFile_of md5 w command"
  by (simp add: CreatePidFile_def Let_def pidFile_of_def split: prod.splits bool.splits option.splits)

lemma faults_CreatePidFile: "faults (snd (CreatePidFile md5 w command)) = faults w"
proof -
  obtain b w1 where wl: "waitLoop w (pidFile_of md5 w command) 0 maxWaitPrevSec = (b, w1)"
    by (cases "waitLoop w (pidFile_of md5 w command) 0 maxWaitPrevSec")
  from faults_waitLoop [of w "pidFile_of md5 w command" 0 maxWaitPrevSec] wl
  have "faults w1 = faults w" by simp
  with wl show ?thesis
    by (auto simp: CreatePidFile_def Let_def maxRandSec_def minRandSec_def pidFile_of_def
          waitForPreviousCommand_def
        split: option.splits bool.splits dest!: faults_Create faults_WriteString)
qed

lemma faults_ExecuteCommand: "faults (snd (ExecuteCommand w command cache)) = faults w"
  by (auto simp: ExecuteCommand_def Let_def Start_def
      split: sum.splits option.splits spawn_result.splits wait_error.splits prod.splits
      dest!: faults_Create faults_WriteString)

text \<open>An invocation that has acquired the lock and returns (a replay, an execution, a
  failed command, a failed system call) has removed the lock file, when the file can
  be removed.\<close>

lemma RunCached_returns_release:
  assumes "fst (CreatePidFile md5 w command) \<noteq> []"
    and "fst (RunCached md5 w command t e a) = Return c"
    and "\<not> fault w OpRemove (pidFile_of md5 w command)"
  shows "files (snd (RunCached md5 w command t e a)) (pidFile_of md5 w command) = None"
proof -
  let ?p = "pidFile_of md5 w command"
  obtain w1 where acq: "CreatePidFile md5 w command = (?p, w1)"
    using assms(1) CreatePidFile_cases [of md5 w command]
    by (cases "CreatePidFile md5 w command") auto
  have f1: "faults w1 = faults w" using faults_CreatePidFile [of md5 w command] acq by simp
  have rm: "files (Remove w' ?p) ?p = None" if "faults w' = faults w" for w'
    using that assms(3) by (simp add: Remove_def fault_def)
  let ?cc = "NewCommandCache md5 w1 command t"
  show ?thesis
  proof (cases "IsValid w1 ?cc")
    case True
    with acq assms(1) f1 show ?thesis
      by (simp add: RunCached_def Let_def sendTextToStdout_def rm split: option.splits)
  next
    case False
    let ?wV = "if verbose w1 then Print w1 (''Executing command'' @ [CHR 0x0A]) else w1"
    obtain res wE where ex: "ExecuteCommand ?wV command ?cc = (res, wE)"
      by (cases "ExecuteCommand ?wV command ?cc")
    have fE: "faults wE = faults w"
      using faults_ExecuteCommand [of ?wV command ?cc] ex f1 by (simp split: if_splits)
    from False acq assms(1,2) ex obtain rc where "res = Return rc"
      by (cases res) (simp_all add: RunCached_def Let_def)
    with False acq assms(1) ex fE show ?thesis
      by (simp add: RunCached_def Let_def Invalidate_def rm)
  qed
qed


text \<open>An invocation that has acquired the lock and whose command does not parse exits
  with status 1 and leaves the lock file, which records its process id.\<close>

lemma RunCached_fatal_keeps_lock:
  assumes "faults w = []"
    and "files w (pidFile_of md5 w command) = None"
    and "\<not> IsValid w (NewCommandCache md5 w command t)"
    and "ConstructBashCommand command = Inl msg"
  shows "fst (RunCached md5 w command t e a) = OsExit 1
         \<and> files (snd (RunCached md5 w command t e a)) (pidFile_of md5 w command)
             = Some \<lparr>content = Itoa (Getpid w), mtime = now w\<rparr>"
proof -
  let ?p = "pidFile_of md5 w command"
  let ?cc = "NewCommandCache md5 w command t"
  let ?wL = "w\<lparr>files := (files w)(?p \<mapsto> \<lparr>content = Itoa (Getpid w), mtime = now w\<rparr>)\<rparr>"
  note paths = cache_paths [of md5 w command t]
  have acq: "CreatePidFile md5 w command = (?p, ?wL)"
    by (rule CreatePidFile_acquires [OF assms(1,2)])
  have pne: "?p \<noteq> []" by (simp add: pidFile_of_def filepath_Join_def)
  have cc: "NewCommandCache md5 ?wL command t = ?cc" by (rule NewCommandCache_cong) simp
  have inv: "\<not> IsValid ?wL ?cc"
    using assms(3) paths IsValid_cong [of ?wL ?cc w] by simp
  show ?thesis
    unfolding RunCached_def acq
    using pne inv assms(4)
    by (simp add: cc Let_def ExecuteCommand_def Eprint_def Print_def)
qed

text \<open>When no system call fails, an execution appends what it copies of the child's
  standard output to the caller's standard output and leaves it as the content of the
  output blob; a copy that was cut short adds its error message to the caller's
  standard output. The child's standard error goes to the caller's standard error.\<close>

lemma ExecuteCommand_sinks:
  assumes "faults w = []"
    and "ConstructBashCommand command = Inr line"
    and "respond w [''bash'', ''-i'', ''-c'', line] (length (spawned w)) = Ran r"
    and "OutputCache cache \<noteq> ExitFile cache"
  shows "stdout (snd (ExecuteCommand w command cache))
           = stdout w @ copied r @ (if cut r = None then [] else copy_error)
         \<and> map_option content (files (snd (ExecuteCommand w command cache)) (OutputCache cache))
             = Some (copied r)
         \<and> stderr (snd (ExecuteCommand w command cache)) = stderr w @ err r"
  using assms
  by (auto simp: ExecuteCommand_def Let_def fault_def Create_def Start_def Eprint_def Print_def
        CopyOutput_def WriteString_def
      split: option.splits wait_error.splits)

text \<open>An execution whose child exits with status 0 returns 0 and leaves the exit record
  as it was, there or not.\<close>

lemma ExecuteCommand_success_keeps_exit_record:
  assumes "faults w = []"
    and "ConstructBashCommand command = Inr line"
    and "respond w [''bash'', ''-i'', ''-c'', line] (length (spawned w)) = Ran r"
    and "status r = Exited 0"
    and "OutputCache cache \<noteq> ExitFile cache"
  shows "fst (ExecuteCommand w command cache) = Return 0
         \<and> files (snd (ExecuteCommand w command cache)) (ExitFile cache)
             = files w (ExitFile cache)"
  using assms
  by (simp add: ExecuteCommand_def Let_def fault_def Create_def Start_def Eprint_def Print_def
        CopyOutput_def WriteString_def Wait_def)

text \<open>While no other process does anything, an invocation leaves every file but the lock
  file, the output blob and the exit record as it was: the command-line record is
  not written.\<close>

lemma pending_Sleep1: "pending w = [] \<Longrightarrow> Sleep1 w = w\<lparr>now := now w + second\<rparr>"
  by (simp add: Sleep1_def Let_def)

lemma frame_waitLoop:
  assumes "pending w = []" "q \<noteq> p"
  shows "files (snd (waitLoop w p i n)) q = files w q \<and> pending (snd (waitLoop w p i n)) = []"
  using assms
proof (induction w p i n rule: waitLoop.induct)
  case (1 w pidFile i waitTimeSec)
  show ?case
  proof (cases "i < waitTimeSec \<and> Stat w pidFile \<noteq> Inl ENOENT
                \<and> getPidFromFile w pidFile \<noteq> - 1
                \<and> isProcessRunning w (getPidFromFile w pidFile)")
    case True
    then have step: "waitLoop w pidFile i waitTimeSec
                 = waitLoop (Sleep1 w) pidFile (i + 1) waitTimeSec"
      by (subst waitLoop.simps) simp
    have "pending (Sleep1 w) = []" "files (Sleep1 w) q = files w q"
      using "1.prems"(1) by (simp_all add: pending_Sleep1)
    with True "1.IH" [OF _ _ refl] "1.prems"(2) step show ?thesis by simp
  next
    case False
    with "1.prems" show ?thesis
      by (subst (1 2) waitLoop.simps) (auto simp: Let_def Remove_def)
  qed
qed

lemma frame_Create: "Create w p = Some w' \<Longrightarrow> q \<noteq> p \<Longrightarrow> files w' q = files w q"
  by (auto simp: Create_def split: if_splits)

lemma frame_WriteString: "WriteString w p s = Some w' \<Longrightarrow> q \<noteq> p \<Longrightarrow> files w' q = files w q"
  by (auto simp: WriteString_def split: if_splits option.splits)

lemma frame_CreatePidFile:
  assumes "pending w = []" "q \<noteq> pidFile_of md5 w command"
  shows "files (snd (CreatePidFile md5 w command)) q = files w q"
proof -
  let ?p = "pidFile_of md5 w command"
  obtain b w1 where wl: "waitLoop w ?p 0 maxWaitPrevSec = (b, w1)"
    by (cases "waitLoop w ?p 0 maxWaitPrevSec")
  from frame_waitLoop [OF assms, of 0 maxWaitPrevSec] wl
  have "files w1 q = files w q" by simp
  with wl assms(2) show ?thesis
    by (auto simp: CreatePidFile_def Let_def maxRandSec_def minRandSec_def
          waitForPreviousCommand_def pidFile_of_def [symmetric] Eprint_def
        split: option.splits bool.splits dest!: frame_Create frame_WriteString)
qed

lemma frame_ExecuteCommand:
  assumes "q \<noteq> OutputCache cache" "q \<noteq> ExitFile cache"
  shows "files (snd (ExecuteCommand w command cache)) q = files w q"
  using assms
  by (auto simp: ExecuteCommand_def Let_def Start_def Create_def WriteString_def CopyOutput_def
        Eprint_def Print_def
      split: sum.splits option.splits spawn_result.splits wait_error.splits prod.splits
        if_splits)

lemma TempDir_Sleep1 [simp]: "TempDir (Sleep1 w) = TempDir w"
  by (simp add: Sleep1_def Let_def apply_ext_def split: list.splits ext_action.splits)

lemma TempDir_waitLoop: "TempDir (snd (waitLoop w p i n)) = TempDir w"
proof (induction w p i n rule: waitLoop.induct)
  case (1 w pidFile i waitTimeSec)
  show ?case
  proof (cases "i < waitTimeSec \<and> Stat w pidFile \<noteq> Inl ENOENT
                \<and> getPidFromFile w pidFile \<noteq> - 1
                \<and> isProcessRunning w (getPidFromFile w pidFile)")
    case True
    then have "waitLoop w pidFile i waitTimeSec
                 = waitLoop (Sleep1 w) pidFile (i + 1) waitTimeSec"
      by (subst waitLoop.simps) simp
    with True "1.IH" [OF _ _ refl] show ?thesis by simp
  next
    case False
    then show ?thesis by (subst waitLoop.simps) (auto simp: Let_def Remove_def)
  qed
qed

lemma TempDir_CreatePidFile: "TempDir (snd (CreatePidFile md5 w command)) = TempDir w"
proof -
  obtain b w1 where wl: "waitLoop w (pidFile_of md5 w command) 0 maxWaitPrevSec = (b, w1)"
    by (cases "waitLoop w (pidFile_of md5 w command) 0 maxWaitPrevSec")
  from TempDir_waitLoop [of w "pidFile_of md5 w command" 0 maxWaitPrevSec] wl
  have "TempDir w1 = TempDir w" by simp
  with wl show ?thesis
    by (auto simp: CreatePidFile_def Let_def maxRandSec_def minRandSec_def pidFile_of_def
          waitForPreviousCommand_def Create_def WriteString_def Eprint_def
        split: option.splits bool.splits if_splits)
qed

lemma RunCached_never_writes_CmdFile:
  assumes "pending w = []"
  shows "files (snd (RunCached md5 w command t e a)) (CmdFile (NewCommandCache md5 w command t))
           = files w (CmdFile (NewCommandCache md5 w command t))"
proof -
  let ?p = "pidFile_of md5 w command"
  let ?cc = "NewCommandCache md5 w command t"
  let ?q = "CmdFile ?cc"
  note paths = cache_paths [of md5 w command t]
  obtain p1 w1 where acq: "CreatePidFile md5 w command = (p1, w1)"
    by (cases "CreatePidFile md5 w command")
  from frame_CreatePidFile [OF assms, of ?q md5 command] paths acq
  have f1: "files w1 ?q = files w ?q" by simp
  have p1: "p1 = [] \<or> p1 = ?p" using CreatePidFile_cases [of md5 w command] acq by simp
  have cc: "NewCommandCache md5 w1 command t = ?cc"
    using TempDir_CreatePidFile [of md5 w command] acq
    by (intro NewCommandCache_cong) simp
  let ?wV = "if verbose w1 then Print w1 (''Executing command'' @ [CHR 0x0A]) else w1"
  obtain res wE where ex: "ExecuteCommand ?wV command ?cc = (res, wE)"
    by (cases "ExecuteCommand ?wV command ?cc")
  from frame_ExecuteCommand [of ?q ?cc ?wV command] paths ex
  have fE: "files wE ?q = files w1 ?q" by (simp add: Print_def split: if_splits)
  show ?thesis
    using acq p1 f1 fE ex paths
    by (auto simp: RunCached_def cc Let_def sendTextToStdout_def Eprint_def Print_def
          Remove_def Invalidate_def
        split: option.splits outcome.splits)
qed

section \<open>The program at given inputs\<close>

subsection \<open>The exit record\<close>

lemma flaky_run1:
  "RunCached md5 (world0\<lparr>respond := flaky_child\<rparr>) [''probe''] 20 False False
     = (Return 3,
        world0\<lparr>respond := flaky_child,
               files := [ExitFile (NewCommandCache md5 world0 [''probe''] 20)
                           \<mapsto> \<lparr>content = ''3'', mtime = 0\<rparr>],
               stdout := ''data'',
               spawned := [[''bash'', ''-i'', ''-c'', ''probe'']]\<rparr>)"
  by (simp add: eval_defs flaky_child_def)

lemma flaky_run2:
  "RunCached md5
     (world0\<lparr>respond := flaky_child,
             files := [ExitFile (NewCommandCache md5 world0 [''probe''] 20)
                         \<mapsto> \<lparr>content = ''3'', mtime = 0\<rparr>],
             stdout := ''data'',
             spawned := [[''bash'', ''-i'', ''-c'', ''probe'']]\<rparr>)
     [''probe''] 20 False False
     = (Return 0,
        world0\<lparr>respond := flaky_child,
               files := [ExitFile (NewCommandCache md5 world0 [''probe''] 20)
                           \<mapsto> \<lparr>content = ''3'', mtime = 0\<rparr>,
                         OutputCache (NewCommandCache md5 world0 [''probe''] 20)
                           \<mapsto> \<lparr>content = ''data'', mtime = 0\<rparr>],
               stdout := ''datadata'',
               spawned := [[''bash'', ''-i'', ''-c'', ''probe''],
                           [''bash'', ''-i'', ''-c'', ''probe'']]\<rparr>)"
  by (simp add: eval_defs flaky_child_def)

lemma flaky_run3:
  "RunCached md5
     (world0\<lparr>respond := flaky_child,
             files := [ExitFile (NewCommandCache md5 world0 [''probe''] 20)
                         \<mapsto> \<lparr>content = ''3'', mtime = 0\<rparr>,
                       OutputCache (NewCommandCache md5 world0 [''probe''] 20)
                         \<mapsto> \<lparr>content = ''data'', mtime = 0\<rparr>],
             stdout := ''datadata'',
             spawned := [[''bash'', ''-i'', ''-c'', ''probe''],
                         [''bash'', ''-i'', ''-c'', ''probe'']]\<rparr>)
     [''probe''] 20 False False
     = (Return 3,
        world0\<lparr>respond := flaky_child,
               files := [ExitFile (NewCommandCache md5 world0 [''probe''] 20)
                           \<mapsto> \<lparr>content = ''3'', mtime = 0\<rparr>,
                         OutputCache (NewCommandCache md5 world0 [''probe''] 20)
                           \<mapsto> \<lparr>content = ''data'', mtime = 0\<rparr>],
               stdout := ''datadatadata'',
               spawned := [[''bash'', ''-i'', ''-c'', ''probe''],
                           [''bash'', ''-i'', ''-c'', ''probe'']]\<rparr>)"
  by (simp add: eval_defs flaky_child_def)

text \<open>
  C1 says that every execution overwrites the exit record with its exit code. The
  code writes the exit record only when the child fails. Three invocations of
  \<open>probe\<close> in an empty cache, at the same time, without "cache on error"; the command
  fails with status 3 the first time and succeeds afterwards. The first invocation
  returns 3 and leaves the exit record \<open>3\<close>; the second executes again, returns 0 and
  leaves the exit record as it was; the third starts nothing, replays the output of the
  successful run and returns 3.
\<close>

theorem stale_exit_record_is_replayed:
  "fst (invocations md5 (world0\<lparr>respond := flaky_child\<rparr>) [''probe''] 20 False False
          (Suc (Suc (Suc 0))))
     = [Return 3, Return 0, Return 3]
   \<and> spawned (snd (invocations md5 (world0\<lparr>respond := flaky_child\<rparr>) [''probe''] 20
                       False False (Suc (Suc (Suc 0)))))
     = [[''bash'', ''-i'', ''-c'', ''probe''], [''bash'', ''-i'', ''-c'', ''probe'']]
   \<and> files (snd (invocations md5 (world0\<lparr>respond := flaky_child\<rparr>) [''probe''] 20
                     False False (Suc (Suc 0))))
       (ExitFile (NewCommandCache md5 world0 [''probe''] 20))
     = Some \<lparr>content = ''3'', mtime = 0\<rparr>"
  by (simp add: flaky_run1 flaky_run2 flaky_run3 cache_paths cache_paths [THEN not_sym])

subsection \<open>A command that cannot be started\<close>

lemma failed_start_run1:
  "RunCached md5 world0 [''job''] 20 True False
     = (Return 1,
        world0\<lparr>files := [OutputCache (NewCommandCache md5 world0 [''job''] 20)
                           \<mapsto> \<lparr>content = [], mtime = 0\<rparr>],
               stderr := ''Failed to start command: '' @ errv @ [CHR 0x0A],
               spawned := [[''bash'', ''-i'', ''-c'', ''job'']]\<rparr>)"
  by (simp add: eval_defs)

lemma failed_start_run2:
  "RunCached md5
     (world0\<lparr>files := [OutputCache (NewCommandCache md5 world0 [''job''] 20)
                        \<mapsto> \<lparr>content = [], mtime = 0\<rparr>],
             stderr := ''Failed to start command: '' @ errv @ [CHR 0x0A],
             spawned := [[''bash'', ''-i'', ''-c'', ''job'']]\<rparr>)
     [''job''] 20 True False
     = (Return 0,
        world0\<lparr>files := [OutputCache (NewCommandCache md5 world0 [''job''] 20)
                           \<mapsto> \<lparr>content = [], mtime = 0\<rparr>],
               stderr := ''Failed to start command: '' @ errv @ [CHR 0x0A],
               spawned := [[''bash'', ''-i'', ''-c'', ''job'']]\<rparr>)"
  by (simp add: eval_defs)

lemma failed_start_not_cached:
  "RunCached md5 world0 [''job''] 20 False False
     = (Return 1,
        world0\<lparr>stderr := ''Failed to start command: '' @ errv @ [CHR 0x0A],
               spawned := [[''bash'', ''-i'', ''-c'', ''job'']]\<rparr>)"
  by (simp add: eval_defs)

text \<open>
  C6 says that a failure is replayed when "cache on error" is enabled. The code
  writes the exit record only when the child has run and failed. When the execution
  fails before that (here \<open>bash\<close> cannot be started, and \<open>ExecuteCommand\<close> returns 1),
  the output blob that was created before the start stays, empty, without an exit
  record: two invocations of \<open>job\<close> with "cache on error", at the same time, in an
  empty cache. The first returns 1 after the message of the failed start; the second
  starts nothing, replays the empty blob and returns 0.
\<close>

theorem failed_start_is_replayed_as_success:
  "invocations md5 world0 [''job''] 20 True False (Suc (Suc 0))
     = ([Return 1, Return 0],
        world0\<lparr>files := [OutputCache (NewCommandCache md5 world0 [''job''] 20)
                           \<mapsto> \<lparr>content = [], mtime = 0\<rparr>],
               stderr := ''Failed to start command: '' @ errv @ [CHR 0x0A],
               spawned := [[''bash'', ''-i'', ''-c'', ''job'']]\<rparr>)"
  by (simp only: invocations.simps failed_start_run1 failed_start_run2 prod.case)

subsection \<open>The two output streams\<close>

lemma noisy_run1:
  "RunCached md5 (world0\<lparr>respond := noisy_child\<rparr>) [''job''] 20 False False
     = (Return 0,
        world0\<lparr>respond := noisy_child,
               files := [OutputCache (NewCommandCache md5 world0 [''job''] 20)
                           \<mapsto> \<lparr>content = ''result'', mtime = 0\<rparr>],
               stdout := ''result'',
               stderr := ''warning'',
               spawned := [[''bash'', ''-i'', ''-c'', ''job'']]\<rparr>)"
  by (simp add: eval_defs noisy_child_def)

lemma noisy_run2:
  "RunCached md5
     (world0\<lparr>respond := noisy_child,
             files := [OutputCache (NewCommandCache md5 world0 [''job''] 20)
                         \<mapsto> \<lparr>content = ''result'', mtime = 0\<rparr>],
             stdout := ''result'',
             stderr := ''warning'',
             spawned := [[''bash'', ''-i'', ''-c'', ''job'']]\<rparr>)
     [''job''] 20 False False
     = (Return 0,
        world0\<lparr>respond := noisy_child,
               files := [OutputCache (NewCommandCache md5 world0 [''job''] 20)
                           \<mapsto> \<lparr>content = ''result'', mtime = 0\<rparr>],
               stdout := ''resultresult'',
               stderr := ''warning'',
               spawned := [[''bash'', ''-i'', ''-c'', ''job'']]\<rparr>)"
  by (simp add: eval_defs noisy_child_def)

text \<open>
  C4 says that the child's standard output and standard error are merged and cached
  together. The code hands its own standard error to the child and caches the
  standard output only. A child that writes \<open>result\<close> to its standard output and
  \<open>warning\<close> to its standard error, invoked twice: the blob holds \<open>result\<close>, the
  caller's standard output has it twice (once run, once replayed), and the caller's
  standard error has \<open>warning\<close> once, from the run.
\<close>

theorem stderr_is_not_cached:
  "invocations md5 (world0\<lparr>respond := noisy_child\<rparr>) [''job''] 20 False False (Suc (Suc 0))
     = ([Return 0, Return 0],
        world0\<lparr>respond := noisy_child,
               files := [OutputCache (NewCommandCache md5 world0 [''job''] 20)
                           \<mapsto> \<lparr>content = ''result'', mtime = 0\<rparr>],
               stdout := ''resultresult'',
               stderr := ''warning'',
               spawned := [[''bash'', ''-i'', ''-c'', ''job'']]\<rparr>)"
  by (simp add: noisy_run1 noisy_run2)

subsection \<open>The shell line\<close>

text \<open>
  C5 says that every argument reaches the child as it was given. The code joins the
  arguments with spaces before it quotes anything, so the shell line of the one
  argument \<open>he said "hi"\<close> is the line of the three arguments \<open>he\<close>, \<open>said\<close>, \<open>"hi"\<close>:
  whatever the shell does with the line, the child cannot receive the first as one
  argument and the second as three.
\<close>

theorem argument_boundaries_are_lost:
  "ConstructBashCommand
     (PreprocessArguments [''echo'', ''he said '' @ [CHR 0x22] @ ''hi'' @ [CHR 0x22]])
     = Inr (''echo he said '' @ [CHR 0x5C, CHR 0x5C, CHR 0x22] @ ''hi''
            @ [CHR 0x5C, CHR 0x5C, CHR 0x22])
   \<and> ConstructBashCommand
     (PreprocessArguments [''echo'', ''he'', ''said'', [CHR 0x22] @ ''hi'' @ [CHR 0x22]])
     = Inr (''echo he said '' @ [CHR 0x5C, CHR 0x5C, CHR 0x22] @ ''hi''
            @ [CHR 0x5C, CHR 0x5C, CHR 0x22])"
  by (simp add: eval_defs)

text \<open>The inputs of \<open>TestConstructBashCommand\<close> and \<open>TestPreprocessArguments\<close>; the
  first test expects four backslashes where the code gives two.\<close>

lemma TestConstructBashCommand_value:
  "ConstructBashCommand
     [''ls'', ''-l'', [CHR 0x22] @ ''file with'' @ [CHR 0x5C, CHR 0x5C] @ '' spaces'' @ [CHR 0x22]]
   = Inr (''ls -l '' @ [CHR 0x5C, CHR 0x22] @ ''file with'' @ [CHR 0x5C, CHR 0x5C]
          @ '' spaces'' @ [CHR 0x5C, CHR 0x22])"
  by (simp add: eval_defs)

lemma TestPreprocessArguments_value:
  "PreprocessArguments
     [''arg1'', [CHR 0x27] @ ''arg with quotes'' @ [CHR 0x27],
      [CHR 0x22] @ ''double quotes'' @ [CHR 0x22], ''back'' @ [CHR 0x5C] @ ''slash'']
   = [''arg1'', [CHR 0x5C, CHR 0x27] @ ''arg with quotes'' @ [CHR 0x5C, CHR 0x27],
      [CHR 0x5C, CHR 0x22] @ ''double quotes'' @ [CHR 0x5C, CHR 0x22],
      ''back'' @ [CHR 0x5C, CHR 0x5C] @ ''slash'']"
  by (simp add: eval_defs)

subsection \<open>The lock on a parse failure\<close>

text \<open>
  C7 says that the lock file is removed on every exit path, a parse failure of the
  quoting included. The code removes it in a deferred call, and \<open>log.Fatal\<close> exits
  without running deferred calls: the command \<open>echo it's\<close>, with its unclosed quote,
  makes the process exit with status 1 while the lock file still records this process.
\<close>

theorem parse_failure_keeps_lock:
  "fst (RunCached md5 world0 [''echo'', ''it'' @ [CHR 0x27] @ ''s''] 20 False False) = OsExit 1
   \<and> files (snd (RunCached md5 world0 [''echo'', ''it'' @ [CHR 0x27] @ ''s''] 20 False False))
        (pidFile_of md5 world0 [''echo'', ''it'' @ [CHR 0x27] @ ''s''])
      = Some \<lparr>content = ''4242'', mtime = 0\<rparr>"
  by (simp add: eval_defs)

subsection \<open>The artifacts of an execution\<close>

text \<open>
  C9 says that after an execution the cache holds an output blob, an exit record and a
  command-line record. The code computes the path of the command-line record and
  never writes it, and writes the exit record only when the child fails: after a
  successful execution in an empty directory the output blob is the only file.
\<close>

theorem successful_run_writes_only_the_blob:
  "fst (RunCached md5 (world0\<lparr>respond := quiet_child\<rparr>) [''date''] 20 False False) = Return 0
   \<and> files (snd (RunCached md5 (world0\<lparr>respond := quiet_child\<rparr>) [''date''] 20 False False))
       = [OutputCache (NewCommandCache md5 world0 [''date''] 20)
            \<mapsto> \<lparr>content = ''ok'', mtime = 0\<rparr>]"
  by (simp add: eval_defs quiet_child_def)

end
